theory Spec2Isabelle
  imports Main "HOL-Library.Sublist"
begin

section \<open>Text\<close>

text \<open>
  JavaScript strings are modelled as \<^typ>\<open>string\<close>, carried as their UTF-8 bytes, and
  are taken to be well formed. A string is truthy in JavaScript exactly when it is not
  empty.

  The white space of JavaScript, which \<open>\s\<close> matches and \<open>trim()\<close> strips, is the
  code points U+0009 to U+000D, U+0020, U+00A0, U+1680, U+2000 to U+200A, U+2028,
  U+2029, U+202F, U+205F, U+3000 and U+FEFF. \<open>whiteSpaces\<close> lists their encodings. In
  well-formed UTF-8 a string starts with a character exactly when it starts with the
  character's encoding, and ends with it exactly when it ends with the encoding.
\<close>

definition whiteSpaces :: "string list" where
  "whiteSpaces =
    [[CHR 0x09], [CHR 0x0A], [CHR 0x0B], [CHR 0x0C], [CHR 0x0D], [CHR 0x20],
     [CHR 0xC2, CHR 0xA0], [CHR 0xE1, CHR 0x9A, CHR 0x80], [CHR 0xE2, CHR 0x80, CHR 0x80],
     [CHR 0xE2, CHR 0x80, CHR 0x81], [CHR 0xE2, CHR 0x80, CHR 0x82],
     [CHR 0xE2, CHR 0x80, CHR 0x83], [CHR 0xE2, CHR 0x80, CHR 0x84],
     [CHR 0xE2, CHR 0x80, CHR 0x85], [CHR 0xE2, CHR 0x80, CHR 0x86],
     [CHR 0xE2, CHR 0x80, CHR 0x87], [CHR 0xE2, CHR 0x80, CHR 0x88],
     [CHR 0xE2, CHR 0x80, CHR 0x89], [CHR 0xE2, CHR 0x80, CHR 0x8A],
     [CHR 0xE2, CHR 0x80, CHR 0xA8], [CHR 0xE2, CHR 0x80, CHR 0xA9],
     [CHR 0xE2, CHR 0x80, CHR 0xAF], [CHR 0xE2, CHR 0x81, CHR 0x9F],
     [CHR 0xE3, CHR 0x80, CHR 0x80], [CHR 0xEF, CHR 0xBB, CHR 0xBF]]"

text \<open>What follows the character at the head of \<open>s\<close>, when that character is one of
  \<open>ws\<close>, a list of encodings.\<close>

definition afterAny :: "string list \<Rightarrow> string \<Rightarrow> string option" where
  "afterAny ws s =
     map_option (\<lambda>w. drop (length w) s) (find (\<lambda>w. w \<noteq> [] \<and> prefix w s) ws)"

text \<open>The string without its leading characters of \<open>ws\<close>.\<close>

function stripLeading :: "string list \<Rightarrow> string \<Rightarrow> string" where
  "stripLeading ws s = (case afterAny ws s of None \<Rightarrow> s | Some rest \<Rightarrow> stripLeading ws rest)"
  by pat_completeness auto
termination
proof (relation "measure (\<lambda>(ws, s). length s)")
  fix ws :: "string list" and s rest :: string
  assume "afterAny ws s = Some rest"
  then obtain w where "find (\<lambda>w. w \<noteq> [] \<and> prefix w s) ws = Some w" "rest = drop (length w) s"
    by (auto simp: afterAny_def)
  then have "w \<noteq> []" "prefix w s" "rest = drop (length w) s"
    by (auto simp: find_Some_iff)
  then show "((ws, rest), (ws, s)) \<in> measure (\<lambda>(ws, s). length s)"
    by (cases s) (auto simp: prefix_def)
qed simp

declare stripLeading.simps [simp del]

text \<open>\<open>String.prototype.trim\<close>: white space is stripped at the start and at the end.\<close>

definition trimStart :: "string \<Rightarrow> string" where
  "trimStart s = stripLeading whiteSpaces s"

definition trimEnd :: "string \<Rightarrow> string" where
  "trimEnd s = rev (stripLeading (map rev whiteSpaces) (rev s))"

definition trim :: "string \<Rightarrow> string" where
  "trim s = trimEnd (trimStart s)"

text \<open>
  \<open>value.replace(/[...]+/g, r)\<close> for a character class given by the encodings \<open>ws\<close> of
  its characters: every maximal run of characters of the class becomes the one
  character \<open>r\<close>.
\<close>

function replaceRuns :: "string list \<Rightarrow> char \<Rightarrow> string \<Rightarrow> string" where
  "replaceRuns ws r [] = []"
| "replaceRuns ws r (c # cs) =
     (case afterAny ws (c # cs) of
        Some rest \<Rightarrow> r # replaceRuns ws r (stripLeading ws rest)
      | None \<Rightarrow> c # replaceRuns ws r cs)"
  by pat_completeness auto
termination
proof (relation "measure (\<lambda>(ws, r, s). length s)")
  have shorter: "length rest < length s" if "afterAny ws s = Some rest"
    for ws and s rest :: string
  proof -
    from that obtain w where "find (\<lambda>w. w \<noteq> [] \<and> prefix w s) ws = Some w"
      "rest = drop (length w) s"
      by (auto simp: afterAny_def)
    then have "w \<noteq> []" "prefix w s" "rest = drop (length w) s"
      by (auto simp: find_Some_iff)
    then show ?thesis
      by (cases s) (auto simp: prefix_def)
  qed
  have le: "length (stripLeading ws s) \<le> length s" for ws and s :: string
  proof (induction ws s rule: stripLeading.induct)
    case (1 ws s)
    show ?case
    proof (cases "afterAny ws s")
      case None
      then show ?thesis by (simp add: stripLeading.simps [of ws s])
    next
      case (Some rest)
      with 1 [OF Some] shorter [OF Some] show ?thesis
        by (simp add: stripLeading.simps [of ws s])
    qed
  qed
  fix ws :: "string list" and r c :: char and cs rest :: string
  assume "afterAny ws (c # cs) = Some rest"
  from shorter [OF this] le [of ws rest]
  show "((ws, r, stripLeading ws rest), (ws, r, c # cs)) \<in> measure (\<lambda>(ws, r, s). length s)"
    by simp
qed simp_all

text \<open>\<open>normalizeWhitespace\<close> (agent-card-view.ts, line 55).\<close>

definition normalizeWhitespace :: "string \<Rightarrow> string" where
  "normalizeWhitespace v = trim (replaceRuns whiteSpaces (CHR '' '') v)"

text \<open>\<open>Array.prototype.join\<close>.\<close>

fun joinWith :: "string \<Rightarrow> string list \<Rightarrow> string" where
  "joinWith sep [] = []"
| "joinWith sep [x] = x"
| "joinWith sep (x # y # ys) = x @ sep @ joinWith sep (y # ys)"

section \<open>The streaming text merge (feishu-renderer.ts, line 32)\<close>

text \<open>\<open>next.startsWith(prev)\<close> is \<^term>\<open>prefix prev next\<close>.\<close>

definition mergeStreamText :: "string \<Rightarrow> string \<Rightarrow> string" where
  "mergeStreamText prev next =
     (if prev = [] then next
      else if next = [] then prev
      else if prefix prev next then next
      else if prefix next prev then prev
      else prev @ next)"

section \<open>Agent messages and timeline entries (agent-card-view.ts)\<close>

text \<open>
  Timestamps and durations are JavaScript numbers holding milliseconds; they are
  modelled as \<^typ>\<open>int\<close> (non-finite numbers are outside the model). An optional
  field is an \<^typ>\<open>'a option\<close>. The \<open>raw\<close> field of a tool result is never read and
  is left out.
\<close>

datatype AgentContentPart =
    TextPart string
  | ThinkingPart string
  | ToolCallPart string "string option" "int option"
      \<comment> \<open>toolName, toolUseId, startedAt\<close>

record AgentToolResultPart =
  tr_toolUseId :: "string option"
  tr_text :: "string option"
  tr_completedAt :: "int option"
  tr_durationMs :: "int option"

text \<open>
  The payload is untyped at run time: besides the two message shapes, a list may hold
  an object that is neither. \<open>OtherItem r\<close> is such an object, \<open>r\<close> telling whether
  it has a \<open>role\<close> attribute. Every loop over messages skips it.
\<close>

datatype AgentCoreMessage =
    AssistantMessage "AgentContentPart list"
  | ToolMessage "string option" "AgentToolResultPart list"
  | OtherItem bool

datatype EntryKind = KText | KThinking | KToolCall

record TimelineEntry =
  kind :: EntryKind
  content :: string
  toolUseId :: "string option"
  toolName :: "string option"
  durationMs :: "int option"

datatype AgentRunStatus =
  Idle | Thinking | ToolCalling | WaitingToolResult | Completed | Canceled | Error

text \<open>\<open>statusTitles\<close> (line 45).\<close>

fun statusTitles :: "AgentRunStatus \<Rightarrow> string" where
  "statusTitles Idle = [CHR 0xE7, CHR 0xAD, CHR 0x89, CHR 0xE5, CHR 0xBE, CHR 0x85, CHR 0xE6, CHR 0x8C, CHR 0x87, CHR 0xE4, CHR 0xBB, CHR 0xA4]"
| "statusTitles Thinking = [CHR 0xE6, CHR 0x80, CHR 0x9D, CHR 0xE8, CHR 0x80, CHR 0x83, CHR 0xE4, CHR 0xB8, CHR 0xAD]"
| "statusTitles ToolCalling = [CHR 0xE8, CHR 0xB0, CHR 0x83, CHR 0xE7, CHR 0x94, CHR 0xA8, CHR 0xE5, CHR 0xB7, CHR 0xA5, CHR 0xE5, CHR 0x85, CHR 0xB7, CHR 0xE4, CHR 0xB8, CHR 0xAD]"
| "statusTitles WaitingToolResult = [CHR 0xE7, CHR 0xAD, CHR 0x89, CHR 0xE5, CHR 0xBE, CHR 0x85, CHR 0xE5, CHR 0xB7, CHR 0xA5, CHR 0xE5, CHR 0x85, CHR 0xB7, CHR 0xE7, CHR 0xBB, CHR 0x93, CHR 0xE6, CHR 0x9E, CHR 0x9C]"
| "statusTitles Completed = [CHR 0xE5, CHR 0x85, CHR 0xA8, CHR 0xE9, CHR 0x83, CHR 0xA8, CHR 0xE5, CHR 0xAE, CHR 0x8C, CHR 0xE6, CHR 0x88, CHR 0x90]"
| "statusTitles Canceled = [CHR 0xE4, CHR 0xBB, CHR 0xBB, CHR 0xE5, CHR 0x8A, CHR 0xA1, CHR 0xE5, CHR 0xB7, CHR 0xB2, CHR 0xE5, CHR 0x8F, CHR 0x96, CHR 0xE6, CHR 0xB6, CHR 0x88]"
| "statusTitles Error = [CHR 0xE6, CHR 0x89, CHR 0xA7, CHR 0xE8, CHR 0xA1, CHR 0x8C, CHR 0xE5, CHR 0xBC, CHR 0x82, CHR 0xE5, CHR 0xB8, CHR 0xB8]"

text \<open>\<open>formatToolCall\<close> (line 168): the call label around the tool name.\<close>

definition formatToolCall :: "string \<Rightarrow> string" where
  "formatToolCall name =
     [CHR 0xE8, CHR 0xB0, CHR 0x83, CHR 0xE7, CHR 0x94, CHR 0xA8] @ '' '' @ [CHR 0x60, CHR 0x27]
     @ name
     @ [CHR 0x27, CHR 0x60] @ '' '' @ [CHR 0xE5, CHR 0xB7, CHR 0xA5, CHR 0xE5, CHR 0x85, CHR 0xB7]"

text \<open>
  \<open>buildToolCallContent\<close> (line 59). \<open>Number.prototype.toFixed\<close> rounds a binary
  floating-point number and is not modelled: the parameter \<open>fx\<close> stands for
  \<open>ms \<mapsto> (ms / 1000).toFixed(1)\<close>, and every statement below holds for any \<open>fx\<close>.
\<close>

definition durationTag :: "(int \<Rightarrow> string) \<Rightarrow> int \<Rightarrow> string" where
  "durationTag fx d =
     ''<text_tag color='' @ [CHR 0x27] @ ''turquoise'' @ [CHR 0x27] @ ''>''
     @ [CHR 0xE8, CHR 0x80, CHR 0x97, CHR 0xE6, CHR 0x97, CHR 0xB6] @ '' ''
     @ fx (max d 0)
     @ '' '' @ [CHR 0xE7, CHR 0xA7, CHR 0x92] @ ''</text_tag>''"

definition buildToolCallContent :: "(int \<Rightarrow> string) \<Rightarrow> string \<Rightarrow> int option \<Rightarrow> string" where
  "buildToolCallContent fx name d =
     (case d of
        Some ms \<Rightarrow> formatToolCall name @ '' '' @ durationTag fx ms
      | None \<Rightarrow> formatToolCall name)"

text \<open>\<open>resolveDurationMs\<close> (line 70); \<open>now\<close> is the value of \<open>Date.now()\<close>.\<close>

definition resolveDurationMs :: "int \<Rightarrow> int option \<Rightarrow> int option \<Rightarrow> int option \<Rightarrow> int option" where
  "resolveDurationMs now reportedDurationMs startedAt completedAt =
     (case reportedDurationMs of
        Some d \<Rightarrow> Some d
      | None \<Rightarrow>
          (case startedAt of
             Some st \<Rightarrow> Some (max 0 ((case completedAt of Some c \<Rightarrow> c | None \<Rightarrow> now) - st))
           | None \<Rightarrow> None))"

section \<open>Projecting messages to timeline entries\<close>

text \<open>
  The state of the loops of \<open>collectDisplayChunks\<close> (line 90): the entries so far,
  the text parts so far, and the correlation map from a tool-use id to the position,
  tool name and start time of the latest call with that id. The map lives for one
  call of \<open>collectDisplayChunks\<close> only.
\<close>

record ToolEntryMeta =
  em_index :: nat
  em_toolName :: string
  em_startedAt :: "int option"

record Collector =
  col_timeline :: "TimelineEntry list"
  col_textParts :: "string list"
  col_toolEntryMap :: "string \<rightharpoonup> ToolEntryMeta"

text \<open>One content part of an assistant message (lines 100 to 134).\<close>

fun collectContent :: "(int \<Rightarrow> string) \<Rightarrow> Collector \<Rightarrow> AgentContentPart \<Rightarrow> Collector" where
  "collectContent fx c (TextPart text) =
     (if normalizeWhitespace text \<noteq> [] then
        c\<lparr>col_textParts := col_textParts c @ [trim text],
          col_timeline := col_timeline c @
            [\<lparr>kind = KText, content = trim text, toolUseId = None, toolName = None,
              durationMs = None\<rparr>]\<rparr>
      else c)"
| "collectContent fx c (ThinkingPart text) =
     (if normalizeWhitespace text \<noteq> [] then
        c\<lparr>col_timeline := col_timeline c @
            [\<lparr>kind = KThinking, content = trim text, toolUseId = None, toolName = None,
              durationMs = None\<rparr>]\<rparr>
      else c)"
| "collectContent fx c (ToolCallPart name uid startedAt) =
     (let tname = (if name \<noteq> [] then name else ''unknown-tool'');
          entry = \<lparr>kind = KToolCall, content = buildToolCallContent fx tname None,
                   toolUseId = uid, toolName = Some tname, durationMs = None\<rparr>;
          m = (case uid of
                 None \<Rightarrow> col_toolEntryMap c
               | Some t \<Rightarrow>
                   if t \<noteq> [] then
                     (col_toolEntryMap c)(t \<mapsto>
                        \<lparr>em_index = length (col_timeline c), em_toolName = tname,
                          em_startedAt = startedAt\<rparr>)
                   else col_toolEntryMap c)
      in c\<lparr>col_toolEntryMap := m, col_timeline := col_timeline c @ [entry]\<rparr>)"

text \<open>One tool-result part of a tool message (lines 138 to 161).\<close>

definition collectResult ::
  "(int \<Rightarrow> string) \<Rightarrow> int \<Rightarrow> Collector \<Rightarrow> AgentToolResultPart \<Rightarrow> Collector" where
  "collectResult fx now c part =
     (case tr_toolUseId part of
        None \<Rightarrow> c
      | Some t \<Rightarrow>
          if t = [] then c
          else
            (case col_toolEntryMap c t of
               None \<Rightarrow> c
             | Some meta \<Rightarrow>
                 if em_index meta < length (col_timeline c) then
                   (let d = resolveDurationMs now (tr_durationMs part) (em_startedAt meta)
                              (tr_completedAt part);
                        entry = col_timeline c ! em_index meta
                    in c\<lparr>col_timeline := (col_timeline c)[em_index meta :=
                           entry\<lparr>durationMs := d,
                                 content := buildToolCallContent fx (em_toolName meta) d\<rparr>]\<rparr>)
                 else c))"

fun collectMessage ::
  "(int \<Rightarrow> string) \<Rightarrow> int \<Rightarrow> Collector \<Rightarrow> AgentCoreMessage \<Rightarrow> Collector" where
  "collectMessage fx now c (AssistantMessage parts) = foldl (collectContent fx) c parts"
| "collectMessage fx now c (ToolMessage uid parts) = foldl (collectResult fx now) c parts"
| "collectMessage fx now c (OtherItem r) = c"

record MessageDisplayChunks =
  chunk_timeline :: "TimelineEntry list"
  finalText :: string

definition emptyCollector :: Collector where
  "emptyCollector = \<lparr>col_timeline = [], col_textParts = [], col_toolEntryMap = Map.empty\<rparr>"

definition collectDisplayChunks ::
  "(int \<Rightarrow> string) \<Rightarrow> int \<Rightarrow> AgentCoreMessage list \<Rightarrow> MessageDisplayChunks" where
  "collectDisplayChunks fx now messages =
     (let c = foldl (collectMessage fx now) emptyCollector messages
      in \<lparr>chunk_timeline = col_timeline c,
          finalText = trim (joinWith ''\<newline>\<newline>'' (col_textParts c))\<rparr>)"

section \<open>The run tracker (class \<open>AgentRunTracker\<close>, line 183)\<close>

record AgentRunTracker =
  status :: AgentRunStatus
  timeline :: "TimelineEntry list"
  seen :: "string set"
  draftAnswer :: string

definition newTracker :: AgentRunTracker where
  "newTracker = \<lparr>status = Thinking, timeline = [], seen = {}, draftAnswer = []\<rparr>"

fun kindName :: "EntryKind \<Rightarrow> string" where
  "kindName KText = ''text''"
| "kindName KThinking = ''thinking''"
| "kindName KToolCall = ''tool-call''"

text \<open>An optional string is truthy when it is present and not empty.\<close>

fun truthy :: "string option \<Rightarrow> bool" where
  "truthy None = False"
| "truthy (Some t) = (t \<noteq> [])"

definition getTimelineEntryKey :: "TimelineEntry \<Rightarrow> string" where
  "getTimelineEntryKey entry =
     (if kind entry = KToolCall \<and> truthy (toolUseId entry)
      then ''tool:'' @ the (toolUseId entry)
      else kindName (kind entry) @ ''|'' @ content entry)"

definition setStatus :: "AgentRunStatus \<Rightarrow> AgentRunTracker \<Rightarrow> AgentRunTracker" where
  "setStatus st s = s\<lparr>status := st\<rparr>"

text \<open>\<open>Array.prototype.findIndex\<close>; \<open>None\<close> is the result \<open>-1\<close>.\<close>

fun findIndex :: "('a \<Rightarrow> bool) \<Rightarrow> 'a list \<Rightarrow> nat option" where
  "findIndex P [] = None"
| "findIndex P (x # xs) = (if P x then Some 0 else map_option Suc (findIndex P xs))"

text \<open>The body of the loop of \<open>appendMessages\<close> (lines 206 to 221).\<close>

definition appendEntry :: "AgentRunTracker \<Rightarrow> TimelineEntry \<Rightarrow> AgentRunTracker" where
  "appendEntry s entry =
     (let key = getTimelineEntryKey entry in
      if content entry \<noteq> [] \<and> key \<notin> seen s then
        s\<lparr>seen := insert key (seen s), timeline := timeline s @ [entry]\<rparr>
      else if kind entry = KToolCall \<and> truthy (toolUseId entry) \<and> content entry \<noteq> [] then
        (case findIndex (\<lambda>item. toolUseId item = toolUseId entry) (timeline s) of
           Some existingIndex \<Rightarrow> s\<lparr>timeline := (timeline s)[existingIndex := entry]\<rparr>
         | None \<Rightarrow> s)
      else s)"

definition appendMessages ::
  "(int \<Rightarrow> string) \<Rightarrow> int \<Rightarrow> AgentCoreMessage list \<Rightarrow> AgentRunTracker \<Rightarrow> AgentRunTracker" where
  "appendMessages fx now messages s =
     (let chunks = collectDisplayChunks fx now messages;
          s' = foldl appendEntry s (chunk_timeline chunks)
      in if finalText chunks \<noteq> [] then s'\<lparr>draftAnswer := finalText chunks\<rparr> else s')"

definition setDraftAnswer :: "string \<Rightarrow> AgentRunTracker \<Rightarrow> AgentRunTracker" where
  "setDraftAnswer answer s = s\<lparr>draftAnswer := answer\<rparr>"

definition reset :: "AgentRunTracker \<Rightarrow> AgentRunTracker" where
  "reset s = s\<lparr>timeline := [], seen := {}, draftAnswer := [], status := Thinking\<rparr>"


section \<open>The render projector (\<open>buildRenderState\<close>, line 238)\<close>

record RenderState =
  rs_status :: AgentRunStatus
  headline :: string
  body :: string
  rs_timeline :: "TimelineEntry list"
  finalAnswer :: "string option"
  isTimelineCollapsed :: bool
  timelineMarkdown :: string
  showTimelinePanel :: bool

definition isTerminalStatus :: "AgentRunStatus \<Rightarrow> bool" where
  "isTerminalStatus st \<longleftrightarrow> st = Completed \<or> st = Canceled \<or> st = Error"

definition formatTimelineEntry :: "TimelineEntry \<Rightarrow> string" where
  "formatTimelineEntry entry =
     (if content entry = [] then []
      else
        (case kind entry of
           KThinking \<Rightarrow>
             ''*'' @ [CHR 0xE6, CHR 0x80, CHR 0x9D, CHR 0xE8, CHR 0x80, CHR 0x83] @ ''*: ''
             @ content entry
         | KToolCall \<Rightarrow> content entry
         | KText \<Rightarrow> content entry))"

text \<open>\<open>normalizeText\<close> (line 293): an absent value counts as the empty string.\<close>

definition normalizeText :: "string option \<Rightarrow> string" where
  "normalizeText v =
     trim (replaceRuns whiteSpaces (CHR '' '') (case v of Some x \<Rightarrow> x | None \<Rightarrow> []))"

definition filterTimelineEntries ::
  "TimelineEntry list \<Rightarrow> string option \<Rightarrow> TimelineEntry list" where
  "filterTimelineEntries entries answerText =
     (if \<not> truthy answerText then entries
      else
        (let normalizedAnswer = normalizeText answerText in
         if normalizedAnswer = [] then entries
         else
           filter (\<lambda>entry.
               if kind entry \<noteq> KText then True
               else normalizeText (Some (content entry)) \<noteq> normalizedAnswer)
             entries))"

definition noFinalReply :: string where
  "noFinalReply = [CHR 0xE6, CHR 0x9A, CHR 0x82, CHR 0xE6, CHR 0x97, CHR 0xA0, CHR 0xE6, CHR 0x9C, CHR 0x80, CHR 0xE7, CHR 0xBB, CHR 0x88, CHR 0xE5, CHR 0x9B, CHR 0x9E, CHR 0xE5, CHR 0xA4, CHR 0x8D]"

definition thinkingPlaceholder :: string where
  "thinkingPlaceholder = [CHR 0xE6, CHR 0x80, CHR 0x9D, CHR 0xE8, CHR 0x80, CHR 0x83, CHR 0xE4, CHR 0xB8, CHR 0xAD] @ ''...''"

definition buildRenderState :: "bool \<Rightarrow> AgentRunTracker \<Rightarrow> RenderState" where
  "buildRenderState collapseTimeline s =
     (let showFinalAnswer = isTerminalStatus (status s);
          finalAnswerText = trim (draftAnswer s);
          filteredTimeline =
            filterTimelineEntries (timeline s)
              (if showFinalAnswer then Some finalAnswerText else None);
          markdown =
            joinWith ''\<newline>''
              (filter (\<lambda>line. line \<noteq> []) (map formatTimelineEntry filteredTimeline));
          hasTimeline = (filteredTimeline \<noteq> [])
      in \<lparr>rs_status = status s,
          headline = statusTitles (status s),
          body =
            (if showFinalAnswer then
               (if finalAnswerText \<noteq> [] then finalAnswerText else noFinalReply)
             else if markdown \<noteq> [] then markdown
             else if draftAnswer s \<noteq> [] then draftAnswer s
             else thinkingPlaceholder),
          rs_timeline = filteredTimeline,
          finalAnswer =
            (if showFinalAnswer \<and> finalAnswerText \<noteq> [] then Some finalAnswerText else None),
          isTimelineCollapsed = collapseTimeline,
          timelineMarkdown = markdown,
          showTimelinePanel = (if showFinalAnswer then hasTimeline else False)\<rparr>)"

section \<open>The card builder (\<open>buildLarkCard\<close>, line 322)\<close>

text \<open>
  The card document, without its constant parts (schema, config, padding): the
  collapsible panel when there is one (whether it is expanded, and its markdown), the
  markdown body, the header template, title and icon.
\<close>

record LarkCard =
  card_panel :: "(bool \<times> string) option"
  card_body :: string
  card_template :: string
  card_title :: string
  card_icon :: string

definition noTimelineRecord :: string where
  "noTimelineRecord = [CHR 0xE6, CHR 0x9A, CHR 0x82, CHR 0xE6, CHR 0x97, CHR 0xA0, CHR 0xE8, CHR 0xBF, CHR 0x87, CHR 0xE7, CHR 0xA8, CHR 0x8B, CHR 0xE8, CHR 0xAE, CHR 0xB0, CHR 0xE5, CHR 0xBD, CHR 0x95]"

fun headerTemplate :: "AgentRunStatus \<Rightarrow> string" where
  "headerTemplate Completed = ''green''"
| "headerTemplate ToolCalling = ''wathet''"
| "headerTemplate Canceled = ''orange''"
| "headerTemplate Error = ''red''"
| "headerTemplate Thinking = ''blue''"
| "headerTemplate _ = ''grey''"

fun iconTemplate :: "AgentRunStatus \<Rightarrow> string" where
  "iconTemplate Completed = ''succeed_filled''"
| "iconTemplate ToolCalling = ''setting-inter_filled''"
| "iconTemplate Canceled = ''ban_filled''"
| "iconTemplate Error = ''error_filled''"
| "iconTemplate Thinking = ''premium-gleam_filled''"
| "iconTemplate _ = ''info_filled''"

definition buildLarkCard :: "RenderState \<Rightarrow> LarkCard" where
  "buildLarkCard state =
     \<lparr>card_panel =
        (if showTimelinePanel state \<and> rs_timeline state \<noteq> [] then
           Some (\<not> isTimelineCollapsed state,
                 if timelineMarkdown state \<noteq> [] then timelineMarkdown state
                 else noTimelineRecord)
         else None),
      card_body = (if body state \<noteq> [] then body state else thinkingPlaceholder),
      card_template = headerTemplate (rs_status state),
      card_title = headline state,
      card_icon = iconTemplate (rs_status state)\<rparr>"


section \<open>The plain-text heuristic (feishu-renderer.ts, line 77)\<close>

text \<open>
  \<open>TOOL_NAME_LABELS\<close> (line 45). The names that a JavaScript object inherits from
  \<open>Object.prototype\<close> (\<open>constructor\<close>, \<open>toString\<close>, ...) are outside the model.
\<close>

definition TOOL_NAME_LABELS :: "string \<rightharpoonup> string" where
  "TOOL_NAME_LABELS = map_of [
     (''read'', [CHR 0xE8, CHR 0xAF, CHR 0xBB, CHR 0xE5, CHR 0x8F, CHR 0x96, CHR 0xE6, CHR 0x96, CHR 0x87, CHR 0xE4, CHR 0xBB, CHR 0xB6]),
     (''write'', [CHR 0xE5, CHR 0x86, CHR 0x99, CHR 0xE5, CHR 0x85, CHR 0xA5, CHR 0xE6, CHR 0x96, CHR 0x87, CHR 0xE4, CHR 0xBB, CHR 0xB6]),
     (''edit'', [CHR 0xE7, CHR 0xBC, CHR 0x96, CHR 0xE8, CHR 0xBE, CHR 0x91, CHR 0xE6, CHR 0x96, CHR 0x87, CHR 0xE4, CHR 0xBB, CHR 0xB6]),
     (''exec'', [CHR 0xE6, CHR 0x89, CHR 0xA7, CHR 0xE8, CHR 0xA1, CHR 0x8C, CHR 0xE5, CHR 0x91, CHR 0xBD, CHR 0xE4, CHR 0xBB, CHR 0xA4]),
     (''process'', [CHR 0xE8, CHR 0xBF, CHR 0x9B, CHR 0xE7, CHR 0xA8, CHR 0x8B, CHR 0xE7, CHR 0xAE, CHR 0xA1, CHR 0xE7, CHR 0x90, CHR 0x86]),
     (''web_search'', [CHR 0xE7, CHR 0xBD, CHR 0x91, CHR 0xE9, CHR 0xA1, CHR 0xB5, CHR 0xE6, CHR 0x90, CHR 0x9C, CHR 0xE7, CHR 0xB4, CHR 0xA2]),
     (''web_fetch'', [CHR 0xE6, CHR 0x8A, CHR 0x93, CHR 0xE5, CHR 0x8F, CHR 0x96, CHR 0xE7, CHR 0xBD, CHR 0x91, CHR 0xE9, CHR 0xA1, CHR 0xB5]),
     (''browser'', [CHR 0xE6, CHR 0xB5, CHR 0x8F, CHR 0xE8, CHR 0xA7, CHR 0x88, CHR 0xE5, CHR 0x99, CHR 0xA8]),
     (''message'', [CHR 0xE5, CHR 0x8F, CHR 0x91, CHR 0xE9, CHR 0x80, CHR 0x81, CHR 0xE6, CHR 0xB6, CHR 0x88, CHR 0xE6, CHR 0x81, CHR 0xAF]),
     (''sessions_list'', [CHR 0xE5, CHR 0x88, CHR 0x97, CHR 0xE4, CHR 0xBC, CHR 0x9A, CHR 0xE8, CHR 0xAF, CHR 0x9D]),
     (''sessions_send'', [CHR 0xE8, CHR 0xB7, CHR 0xA8, CHR 0xE4, CHR 0xBC, CHR 0x9A, CHR 0xE8, CHR 0xAF, CHR 0x9D, CHR 0xE5, CHR 0x8F, CHR 0x91, CHR 0xE9, CHR 0x80, CHR 0x81]),
     (''sessions_spawn'', [CHR 0xE6, CHR 0xB4, CHR 0xBE, CHR 0xE7, CHR 0x94, CHR 0x9F, CHR 0xE4, CHR 0xBB, CHR 0xA3, CHR 0xE7, CHR 0x90, CHR 0x86]),
     (''session_status'', [CHR 0xE4, CHR 0xBC, CHR 0x9A, CHR 0xE8, CHR 0xAF, CHR 0x9D, CHR 0xE7, CHR 0x8A, CHR 0xB6, CHR 0xE6, CHR 0x80, CHR 0x81]),
     (''cron'', [CHR 0xE5, CHR 0xAE, CHR 0x9A, CHR 0xE6, CHR 0x97, CHR 0xB6, CHR 0xE4, CHR 0xBB, CHR 0xBB, CHR 0xE5, CHR 0x8A, CHR 0xA1]),
     (''feishu_doc_read'', [CHR 0xE9, CHR 0xA3, CHR 0x9E, CHR 0xE4, CHR 0xB9, CHR 0xA6, CHR 0xE8, CHR 0xAF, CHR 0xBB, CHR 0xE6, CHR 0x96, CHR 0x87, CHR 0xE6, CHR 0xA1, CHR 0xA3]),
     (''feishu_doc_write'', [CHR 0xE9, CHR 0xA3, CHR 0x9E, CHR 0xE4, CHR 0xB9, CHR 0xA6, CHR 0xE5, CHR 0x86, CHR 0x99, CHR 0xE6, CHR 0x96, CHR 0x87, CHR 0xE6, CHR 0xA1, CHR 0xA3]),
     (''feishu_doc_append'', [CHR 0xE9, CHR 0xA3, CHR 0x9E, CHR 0xE4, CHR 0xB9, CHR 0xA6, CHR 0xE8, CHR 0xBF, CHR 0xBD, CHR 0xE5, CHR 0x8A, CHR 0xA0]),
     (''feishu_doc_list_blocks'', [CHR 0xE9, CHR 0xA3, CHR 0x9E, CHR 0xE4, CHR 0xB9, CHR 0xA6, CHR 0xE5, CHR 0x88, CHR 0x97, CHR 0xE6, CHR 0x96, CHR 0x87, CHR 0xE6, CHR 0xA1, CHR 0xA3, CHR 0xE5, CHR 0x9D, CHR 0x97]),
     (''feishu_doc_update'', [CHR 0xE9, CHR 0xA3, CHR 0x9E, CHR 0xE4, CHR 0xB9, CHR 0xA6, CHR 0xE6, CHR 0x9B, CHR 0xB4, CHR 0xE6, CHR 0x96, CHR 0xB0, CHR 0xE6, CHR 0x96, CHR 0x87, CHR 0xE6, CHR 0xA1, CHR 0xA3, CHR 0xE5, CHR 0x9D, CHR 0x97]),
     (''feishu_doc_delete_block'', [CHR 0xE9, CHR 0xA3, CHR 0x9E, CHR 0xE4, CHR 0xB9, CHR 0xA6, CHR 0xE5, CHR 0x88, CHR 0xA0, CHR 0xE9, CHR 0x99, CHR 0xA4, CHR 0xE6, CHR 0x96, CHR 0x87, CHR 0xE6, CHR 0xA1, CHR 0xA3, CHR 0xE5, CHR 0x9D, CHR 0x97]),
     (''feishu_folder_list'', [CHR 0xE9, CHR 0xA3, CHR 0x9E, CHR 0xE4, CHR 0xB9, CHR 0xA6, CHR 0xE5, CHR 0x88, CHR 0x97, CHR 0xE6, CHR 0x96, CHR 0x87, CHR 0xE4, CHR 0xBB, CHR 0xB6, CHR 0xE5, CHR 0xA4, CHR 0xB9]),
     (''feishu_doc_create'', [CHR 0xE9, CHR 0xA3, CHR 0x9E, CHR 0xE4, CHR 0xB9, CHR 0xA6, CHR 0xE5, CHR 0x88, CHR 0x9B, CHR 0xE5, CHR 0xBB, CHR 0xBA, CHR 0xE6, CHR 0x96, CHR 0x87, CHR 0xE6, CHR 0xA1, CHR 0xA3]),
     (''memory_search'', [CHR 0xE8, CHR 0xAE, CHR 0xB0, CHR 0xE5, CHR 0xBF, CHR 0x86, CHR 0xE6, CHR 0x90, CHR 0x9C, CHR 0xE7, CHR 0xB4, CHR 0xA2]),
     (''memory_get'', [CHR 0xE8, CHR 0xAF, CHR 0xBB, CHR 0xE5, CHR 0x8F, CHR 0x96, CHR 0xE8, CHR 0xAE, CHR 0xB0, CHR 0xE5, CHR 0xBF, CHR 0x86]),
     (''tts'', [CHR 0xE8, CHR 0xAF, CHR 0xAD, CHR 0xE9, CHR 0x9F, CHR 0xB3, CHR 0xE5, CHR 0x90, CHR 0x88, CHR 0xE6, CHR 0x88, CHR 0x90]),
     (''canvas'', [CHR 0xE7, CHR 0x94, CHR 0xBB, CHR 0xE5, CHR 0xB8, CHR 0x83, CHR 0xE6, CHR 0x8E, CHR 0xA7, CHR 0xE5, CHR 0x88, CHR 0xB6]),
     (''nodes'', [CHR 0xE8, CHR 0x8A, CHR 0x82, CHR 0xE7, CHR 0x82, CHR 0xB9, CHR 0xE7, CHR 0xAE, CHR 0xA1, CHR 0xE7, CHR 0x90, CHR 0x86]),
     (''gateway'', [CHR 0xE7, CHR 0xBD, CHR 0x91, CHR 0xE5, CHR 0x85, CHR 0xB3, CHR 0xE7, CHR 0xAE, CHR 0xA1, CHR 0xE7, CHR 0x90, CHR 0x86]),
     (''agents_list'', [CHR 0xE5, CHR 0x88, CHR 0x97, CHR 0xE5, CHR 0x87, CHR 0xBA, CHR 0xE4, CHR 0xBB, CHR 0xA3, CHR 0xE7, CHR 0x90, CHR 0x86])]"

text \<open>\<open>text.split(/\r?\n/)\<close>: the text is cut at every line feed, and a carriage return
  right before the line feed goes with it. The first argument is the current piece,
  reversed.\<close>

fun splitLinesFrom :: "string \<Rightarrow> string \<Rightarrow> string list" where
  "splitLinesFrom cur [] = [rev cur]"
| "splitLinesFrom cur (c # cs) =
     (if c = CHR 0x0A then
        rev (case cur of [] \<Rightarrow> [] | d # ds \<Rightarrow> if d = CHR 0x0D then ds else cur)
        # splitLinesFrom [] cs
      else splitLinesFrom (c # cur) cs)"

definition splitLines :: "string \<Rightarrow> string list" where
  "splitLines text = splitLinesFrom [] text"

definition isAlpha :: "char \<Rightarrow> bool" where
  "isAlpha c \<longleftrightarrow> c \<in> set ''ABCDEFGHIJKLMNOPQRSTUVWXYZabcdefghijklmnopqrstuvwxyz''"

text \<open>The class \<open>[A-Za-z0-9_ ]\<close>.\<close>

definition isNameChar :: "char \<Rightarrow> bool" where
  "isNameChar c \<longleftrightarrow> isAlpha c \<or> c \<in> set ''0123456789_ ''"

text \<open>Whether the string holds a character that \<open>.\<close> does not match: line feed,
  carriage return, U+2028 or U+2029.\<close>

fun hasLineTerminator :: "string \<Rightarrow> bool" where
  "hasLineTerminator [] = False"
| "hasLineTerminator (c # cs) =
     (c = CHR 0x0A \<or> c = CHR 0x0D
      \<or> prefix [CHR 0xE2, CHR 0x80, CHR 0xA8] (c # cs)
      \<or> prefix [CHR 0xE2, CHR 0x80, CHR 0xA9] (c # cs)
      \<or> hasLineTerminator cs)"

definition toLowerChar :: "char \<Rightarrow> char" where
  "toLowerChar c =
     (case map_of (zip ''ABCDEFGHIJKLMNOPQRSTUVWXYZ'' ''abcdefghijklmnopqrstuvwxyz'') c of
        Some l \<Rightarrow> l
      | None \<Rightarrow> c)"

text \<open>The characters of the prefix class of \<open>toolRegex\<close> that the model knows: white
  space, U+FE0F and U+200D.\<close>

definition prefixChars :: "string list" where
  "prefixChars = whiteSpaces @ [[CHR 0xEF, CHR 0xB8, CHR 0x8F], [CHR 0xE2, CHR 0x80, CHR 0x8D]]"

text \<open>
  The match of a trimmed line against \<open>toolRegex\<close> (line 79),
  \<open>^\s*[\p{Extended_Pictographic}\uFE0F\u200D\s]*([A-Za-z][A-Za-z0-9_ ]{0,60})\s*:\s*(.*)$\<close>,
  giving the two groups. The prefix is a run of characters of the prefix class. After
  the first letter the name takes at most 60 characters of the maximal run of name
  characters; what it leaves of the run must be matched by \<open>\s*\<close>, so must be
  spaces; then comes white space, the colon, white space, and a rest without a line
  terminator. The table of the property \<open>Extended_Pictographic\<close> is outside the model:
  a line that starts with such a character is not matched here.
\<close>

definition matchToolLine :: "string \<Rightarrow> (string \<times> string) option" where
  "matchToolLine line =
     (case stripLeading prefixChars line of
        [] \<Rightarrow> None
      | c # cs \<Rightarrow>
          if \<not> isAlpha c then None
          else
            (let run = takeWhile isNameChar cs;
                 afterRun = trimStart (dropWhile isNameChar cs)
             in if \<not> list_all (\<lambda>x. x = CHR '' '') (drop 60 run) then None
                else
                  (case afterRun of
                     [] \<Rightarrow> None
                   | d # ds \<Rightarrow>
                       if d \<noteq> CHR '':'' then None
                       else
                         (let rest = trimStart ds
                          in if hasLineTerminator rest then None
                             else Some (c # take 60 run, rest)))))"

definition toolHeader :: "string \<Rightarrow> string" where
  "toolHeader label =
     [CHR 0xE8, CHR 0xB0, CHR 0x83, CHR 0xE7, CHR 0x94, CHR 0xA8, CHR 0x60]
     @ label
     @ [CHR 0x60, CHR 0xE5, CHR 0xB7, CHR 0xA5, CHR 0xE5, CHR 0x85, CHR 0xB7] @ '':''"

text \<open>The line that a matched line becomes (lines 93 to 98).\<close>

definition toolLineOf :: "string \<times> string \<Rightarrow> string" where
  "toolLineOf m =
     (let rawToolName = trim (fst m);
          normalized =
            replaceRuns (''-'' # whiteSpaces) (CHR ''_'') (map toLowerChar rawToolName);
          label = (case TOOL_NAME_LABELS normalized of Some l \<Rightarrow> l | None \<Rightarrow> rawToolName);
          meta = trim (snd m)
      in if meta \<noteq> [] then toolHeader label @ '' '' @ meta else toolHeader label)"

text \<open>The loop over the lines (lines 85 to 102): the tool lines and the other lines.\<close>

fun splitLoop :: "string list \<Rightarrow> string list \<times> string list" where
  "splitLoop [] = ([], [])"
| "splitLoop (rawLine # rest) =
     (let (toolLines, otherLines) = splitLoop rest in
      if trim rawLine = [] then (toolLines, rawLine # otherLines)
      else
        (case matchToolLine (trim rawLine) of
           Some m \<Rightarrow> (toolLineOf m # toolLines, otherLines)
         | None \<Rightarrow> (toolLines, rawLine # otherLines)))"

definition splitToolSummaryLines :: "string \<Rightarrow> string list \<times> string" where
  "splitToolSummaryLines text =
     (let (toolLines, otherLines) = splitLoop (splitLines text);
          remainingText = trim (joinWith ''\<newline>'' otherLines)
      in (toolLines,
          if toolLines \<noteq> [] \<and> remainingText \<noteq> [] then ''\<newline>\<newline>'' @ remainingText
          else remainingText))"


section \<open>The event normalizer (feishu-renderer.ts, lines 112 to 289)\<close>

text \<open>
  A verbose event is an untyped object. \<open>EventData\<close> holds the fields that
  \<open>applyVerboseEvent\<close> reads from the event's data, each \<open>None\<close> when it is absent
  or not of the type the code tests for (\<open>typeof data.text === "string"\<close>, ...).
  The fields \<open>meta\<close> and \<open>output\<close> are strings when present; other values, which
  \<open>safeText\<close> prints with \<open>JSON.stringify\<close>, are outside the model.
\<close>

record EventData =
  d_text :: "string option"
  d_phase :: "string option"
  d_name :: "string option"
  d_toolCallId :: "string option"
  d_isError :: "bool option"
  d_meta :: "string option"
  d_output :: "string option"
  d_durationMs :: "int option"
  d_error :: "string option"

text \<open>The \<open>payload\<close> attribute of an event: its \<open>stream\<close>, its \<open>data\<close>, and its own
  fields read as data.\<close>

record EventPayload =
  ep_stream :: "string option"
  ep_data :: "EventData option"
  ep_fields :: EventData

record VerboseEvent =
  ev_stream :: "string option"
  ev_event :: "string option"
  ev_data :: "EventData option"
  ev_payload :: "EventPayload option"

definition emptyData :: EventData where
  "emptyData = \<lparr>d_text = None, d_phase = None, d_name = None, d_toolCallId = None,
     d_isError = None, d_meta = None, d_output = None, d_durationMs = None, d_error = None\<rparr>"

text \<open>The reply payload: its text and the places where messages and events are looked
  for. A place is \<open>None\<close> when it is absent or not an array.\<close>

record ReplyPayload =
  p_text :: "string option"
  p_messages :: "AgentCoreMessage list option"
  p_meta_agentMessages :: "AgentCoreMessage list option"
  p_meta_messages :: "AgentCoreMessage list option"
  p_extra_messages :: "AgentCoreMessage list option"
  p_context_messages :: "AgentCoreMessage list option"
  p_delta_messages :: "AgentCoreMessage list option"
  p_events :: "VerboseEvent list option"
  p_meta_events :: "VerboseEvent list option"
  p_extra_events :: "VerboseEvent list option"
  p_context_events :: "VerboseEvent list option"
  p_delta_events :: "VerboseEvent list option"

fun hasRole :: "AgentCoreMessage \<Rightarrow> bool" where
  "hasRole (AssistantMessage parts) = True"
| "hasRole (ToolMessage uid parts) = True"
| "hasRole (OtherItem r) = r"

text \<open>The loop over the candidates: the first one that is a non-empty array passing
  the test \<open>ok\<close>.\<close>

fun firstCandidate :: "('a list \<Rightarrow> bool) \<Rightarrow> 'a list option list \<Rightarrow> 'a list option" where
  "firstCandidate ok [] = None"
| "firstCandidate ok (None # cands) = firstCandidate ok cands"
| "firstCandidate ok (Some xs # cands) =
     (if xs \<noteq> [] \<and> ok xs then Some xs else firstCandidate ok cands)"

definition extractAgentMessages :: "ReplyPayload \<Rightarrow> AgentCoreMessage list option" where
  "extractAgentMessages raw =
     firstCandidate (list_ex hasRole)
       [p_messages raw, p_meta_agentMessages raw, p_meta_messages raw, p_extra_messages raw,
        p_context_messages raw, p_delta_messages raw]"

definition extractVerboseEvents :: "ReplyPayload \<Rightarrow> VerboseEvent list option" where
  "extractVerboseEvents raw =
     firstCandidate (\<lambda>xs. True)
       [p_events raw, p_meta_events raw, p_extra_events raw, p_context_events raw,
        p_delta_events raw]"

text \<open>\<open>evt?.stream ?? evt?.event ?? evt?.payload?.stream\<close> and
  \<open>evt?.data ?? evt?.payload?.data ?? evt?.payload ?? {}\<close> (lines 186 and 187).\<close>

definition eventStream :: "VerboseEvent \<Rightarrow> string option" where
  "eventStream evt =
     (case ev_stream evt of
        Some s \<Rightarrow> Some s
      | None \<Rightarrow>
          (case ev_event evt of
             Some s \<Rightarrow> Some s
           | None \<Rightarrow> (case ev_payload evt of Some p \<Rightarrow> ep_stream p | None \<Rightarrow> None)))"

definition eventData :: "VerboseEvent \<Rightarrow> EventData" where
  "eventData evt =
     (case ev_data evt of
        Some d \<Rightarrow> d
      | None \<Rightarrow>
          (case ev_payload evt of
             Some p \<Rightarrow> (case ep_data p of Some d \<Rightarrow> d | None \<Rightarrow> ep_fields p)
           | None \<Rightarrow> emptyData))"

definition safeText :: "string option \<Rightarrow> string" where
  "safeText v = (case v of Some s \<Rightarrow> s | None \<Rightarrow> [])"

text \<open>The text of the synthetic tool result (lines 225 to 240).\<close>

definition toolResultText :: "EventData \<Rightarrow> bool \<Rightarrow> string" where
  "toolResultText d isError =
     (let meta = safeText (d_meta d);
          output = (case d_output d of Some v \<Rightarrow> safeText (Some v) | None \<Rightarrow> []);
          text =
            joinWith ''\<newline>''
              (filter (\<lambda>x. x \<noteq> [])
                 [if output \<noteq> [] then [CHR 0xE8, CHR 0xBE, CHR 0x93, CHR 0xE5, CHR 0x87, CHR 0xBA] @ '': '' @ output else [],
                  if meta \<noteq> [] then [CHR 0xE5, CHR 0xA4, CHR 0x87, CHR 0xE6, CHR 0xB3, CHR 0xA8] @ '': '' @ meta else [],
                  if isError then [CHR 0xE9, CHR 0x94, CHR 0x99, CHR 0xE8, CHR 0xAF, CHR 0xAF] @ '': true'' else []])
      in if text \<noteq> [] then text
         else if isError then
           [CHR 0xE5, CHR 0xB7, CHR 0xA5, CHR 0xE5, CHR 0x85, CHR 0xB7, CHR 0xE6, CHR 0x89, CHR 0xA7, CHR 0xE8, CHR 0xA1, CHR 0x8C, CHR 0xE5, CHR 0xA4, CHR 0xB1, CHR 0xE8, CHR 0xB4, CHR 0xA5]
         else
           [CHR 0xE5, CHR 0xB7, CHR 0xA5, CHR 0xE5, CHR 0x85, CHR 0xB7, CHR 0xE6, CHR 0x89, CHR 0xA7, CHR 0xE8, CHR 0xA1, CHR 0x8C, CHR 0xE5, CHR 0xAE, CHR 0x8C, CHR 0xE6, CHR 0x88, CHR 0x90])"

definition executionError :: string where
  "executionError = [CHR 0xE6, CHR 0x89, CHR 0xA7, CHR 0xE8, CHR 0xA1, CHR 0x8C, CHR 0xE5, CHR 0xBC, CHR 0x82, CHR 0xE5, CHR 0xB8, CHR 0xB8]"

text \<open>
  \<open>applyVerboseEvent\<close> (line 179) on the tracker and the text of the assistant
  buffer; \<open>now\<close> is the value of \<open>Date.now()\<close>.
\<close>

definition applyVerboseEvent ::
  "(int \<Rightarrow> string) \<Rightarrow> int \<Rightarrow> AgentRunTracker \<times> string \<Rightarrow> VerboseEvent
   \<Rightarrow> AgentRunTracker \<times> string" where
  "applyVerboseEvent fx now st evt =
     (let tracker = fst st; buffer = snd st;
          stream = eventStream evt; d = eventData evt
      in if stream = Some ''assistant'' then
           (let text = (case d_text d of Some t \<Rightarrow> t | None \<Rightarrow> []) in
            if text \<noteq> [] then
              (let buffer' =
                     (if prefix buffer text then text
                      else if prefix text buffer then buffer
                      else buffer @ text)
               in (setDraftAnswer buffer' (setStatus Thinking tracker), buffer'))
            else st)
         else if stream = Some ''tool'' then
           (let phase = (case d_phase d of Some p \<Rightarrow> p | None \<Rightarrow> ''unknown'');
                name = (case d_name d of Some n \<Rightarrow> n | None \<Rightarrow> ''unknown-tool'');
                toolCallId = d_toolCallId d
            in if phase = ''start'' then
                 (appendMessages fx now
                    [AssistantMessage [ToolCallPart name toolCallId (Some now)]]
                    (setStatus ToolCalling tracker),
                  buffer)
               else if phase = ''end'' \<or> phase = ''result'' \<or> phase = ''output'' \<or> phase = ''error'' then
                 (let isError =
                        (case d_isError d of Some b \<Rightarrow> b | None \<Rightarrow> phase = ''error'')
                  in (setStatus (if isError then Error else WaitingToolResult)
                        (appendMessages fx now
                           [ToolMessage toolCallId
                              [\<lparr>tr_toolUseId = toolCallId,
                                tr_text = Some (toolResultText d isError),
                                tr_completedAt = Some now,
                                tr_durationMs = d_durationMs d\<rparr>]]
                           tracker),
                      buffer))
               else (setStatus ToolCalling tracker, buffer))
         else if stream = Some ''lifecycle'' then
           (let phase = (case d_phase d of Some p \<Rightarrow> p | None \<Rightarrow> []) in
            if phase = ''start'' then (setStatus Thinking tracker, buffer)
            else if phase = ''error'' then
              (setDraftAnswer (case d_error d of Some e \<Rightarrow> e | None \<Rightarrow> executionError)
                 (setStatus Error tracker),
               buffer)
            else st)
         else st)"

text \<open>\<open>inferStatusFromMessages\<close> (line 272).\<close>

fun isToolCallPart :: "AgentContentPart \<Rightarrow> bool" where
  "isToolCallPart (ToolCallPart n u t) = True"
| "isToolCallPart _ = False"

fun isThinkingPart :: "AgentContentPart \<Rightarrow> bool" where
  "isThinkingPart (ThinkingPart t) = True"
| "isThinkingPart _ = False"

fun assistantParts :: "AgentCoreMessage \<Rightarrow> AgentContentPart list" where
  "assistantParts (AssistantMessage parts) = parts"
| "assistantParts _ = []"

definition inferStatusFromMessages :: "AgentCoreMessage list \<Rightarrow> AgentRunStatus option" where
  "inferStatusFromMessages messages =
     (let sawToolCall = list_ex (\<lambda>m. list_ex isToolCallPart (assistantParts m)) messages;
          sawThinking = list_ex (\<lambda>m. list_ex isThinkingPart (assistantParts m)) messages
      in if sawToolCall then Some ToolCalling
         else if sawThinking then Some Thinking
         else None)"


section \<open>The update scheduler (\<open>createCardUpdateController\<close>, line 291)\<close>

text \<open>
  The controller is asynchronous. It is modelled as a state machine whose steps are
  the pieces of code that run without suspension: a call of \<open>schedule\<close> or \<open>flush\<close>,
  the continuation after the timer of \<open>flushOnce\<close>, and the continuation after
  \<open>updateCardFeishu\<close> settles. Every step carries the value \<open>now\<close> of \<open>Date.now()\<close>;
  the clock does not go back, and a timer does not fire before it is due. One call of
  \<open>flush\<close> is followed. The continuation of \<open>await inFlight\<close> runs in the same step
  as the end of the loop, as promise reactions run before any other task.

  \<open>loop\<close> is the state of the loop started by \<open>kick\<close> (\<open>inFlight\<close> is set exactly when
  it is not \<open>LIdle\<close>); \<open>published\<close> lists the calls of \<open>updateCardFeishu\<close>, each with
  its time and the card passed (\<open>None\<close> for \<open>null\<close>).
\<close>

datatype LoopPhase = LIdle | LWaiting int | LPublishing

datatype FlushPhase = FNone | FAwaitLoop | FWaiting int | FPublishing | FResolved | FRejected

record 'c CardUpdateController =
  pending :: "'c option"
  lastSentAt :: int
  loop :: LoopPhase
  flushing :: FlushPhase
  published :: "(int \<times> 'c option) list"
  clock :: int

definition MIN_INTERVAL_MS :: int where
  "MIN_INTERVAL_MS = 350"


text \<open>The second half of \<open>flushOnce\<close> (lines 309 to 312): take the pending card, clear
  the slot, stamp the time, call \<open>updateCardFeishu\<close>.\<close>

definition sendPending :: "int \<Rightarrow> 'c CardUpdateController \<Rightarrow> 'c CardUpdateController" where
  "sendPending now s =
     s\<lparr>pending := None, lastSentAt := now, published := published s @ [(now, pending s)]\<rparr>"

text \<open>How far a call of \<open>flushOnce\<close> gets before it suspends.\<close>

datatype FlushOnce = Returned | Waits int | Publishes

definition flushOnce ::
  "int \<Rightarrow> 'c CardUpdateController \<Rightarrow> 'c CardUpdateController \<times> FlushOnce" where
  "flushOnce now s =
     (if pending s = None then (s, Returned)
      else
        (let wait = max 0 (MIN_INTERVAL_MS - (now - lastSentAt s)) in
         if wait > 0 then (s, Waits (now + wait))
         else (sendPending now s, Publishes)))"

text \<open>The continuation of \<open>flush\<close> after \<open>await inFlight\<close> (lines 336 to 338).\<close>

definition flushResume :: "int \<Rightarrow> 'c CardUpdateController \<Rightarrow> 'c CardUpdateController" where
  "flushResume now s =
     (if pending s = None then s\<lparr>flushing := FResolved\<rparr>
      else
        (case flushOnce now s of
           (s', Returned) \<Rightarrow> s'\<lparr>flushing := FResolved\<rparr>
         | (s', Waits due) \<Rightarrow> s'\<lparr>flushing := FWaiting due\<rparr>
         | (s', Publishes) \<Rightarrow> s'\<lparr>flushing := FPublishing\<rparr>))"

text \<open>The end of the loop of \<open>kick\<close> with no failure (line 323): \<open>inFlight\<close> is
  cleared, and a \<open>flush\<close> that awaits it goes on.\<close>

definition loopEnd :: "int \<Rightarrow> 'c CardUpdateController \<Rightarrow> 'c CardUpdateController" where
  "loopEnd now s =
     (let s' = s\<lparr>loop := LIdle\<rparr> in
      if flushing s' = FAwaitLoop then flushResume now s' else s')"

text \<open>The loop of \<open>kick\<close> from its test \<open>while (pending)\<close> up to the next suspension
  (lines 319 to 321).\<close>

definition loopTurn :: "int \<Rightarrow> 'c CardUpdateController \<Rightarrow> 'c CardUpdateController" where
  "loopTurn now s =
     (if pending s = None then loopEnd now s
      else
        (case flushOnce now s of
           (s', Returned) \<Rightarrow> loopEnd now s'
         | (s', Waits due) \<Rightarrow> s'\<lparr>loop := LWaiting due\<rparr>
         | (s', Publishes) \<Rightarrow> s'\<lparr>loop := LPublishing\<rparr>))"

text \<open>\<open>kick\<close> (line 315). It is only called when a card is pending: by \<open>schedule\<close>,
  which has just set one, and by the \<open>finally\<close> block under the test \<open>if (pending)\<close>.\<close>

definition kick :: "int \<Rightarrow> 'c CardUpdateController \<Rightarrow> 'c CardUpdateController" where
  "kick now s = (if loop s \<noteq> LIdle then s else loopTurn now s)"

text \<open>
  The loop when \<open>updateCardFeishu\<close> fails: \<open>flushOnce\<close> throws, the \<open>finally\<close> block
  clears \<open>inFlight\<close> and kicks again if a card is pending, and the promise that a
  \<open>flush\<close> awaits is rejected.
\<close>

definition loopFailed :: "int \<Rightarrow> 'c CardUpdateController \<Rightarrow> 'c CardUpdateController" where
  "loopFailed now s =
     (let s1 = s\<lparr>loop := LIdle\<rparr>;
          s2 = (if pending s1 \<noteq> None then kick now s1 else s1)
      in if flushing s2 = FAwaitLoop then s2\<lparr>flushing := FRejected\<rparr> else s2)"

datatype 'c SchedulerEvent =
    Schedule 'c int
  | Flush int
  | LoopTimer int
  | LoopPublishDone bool int
  | FlushTimer int
  | FlushPublishDone bool int

fun eventTime :: "'c SchedulerEvent \<Rightarrow> int" where
  "eventTime (Schedule doc now) = now"
| "eventTime (Flush now) = now"
| "eventTime (LoopTimer now) = now"
| "eventTime (LoopPublishDone ok now) = now"
| "eventTime (FlushTimer now) = now"
| "eventTime (FlushPublishDone ok now) = now"

text \<open>What an event does when it can happen; \<open>None\<close> when it cannot happen in this
  state.\<close>

fun fire :: "'c CardUpdateController \<Rightarrow> 'c SchedulerEvent \<Rightarrow> 'c CardUpdateController option" where
  "fire s (Schedule doc now) = Some (kick now (s\<lparr>pending := Some doc\<rparr>))"
| "fire s (Flush now) =
     (if flushing s \<noteq> FNone then None
      else if loop s \<noteq> LIdle then Some (s\<lparr>flushing := FAwaitLoop\<rparr>)
      else Some (flushResume now s))"
| "fire s (LoopTimer now) =
     (case loop s of
        LWaiting due \<Rightarrow>
          if due \<le> now then Some ((sendPending now s)\<lparr>loop := LPublishing\<rparr>) else None
      | _ \<Rightarrow> None)"
| "fire s (LoopPublishDone ok now) =
     (if loop s \<noteq> LPublishing then None
      else if ok then Some (loopTurn now s)
      else Some (loopFailed now s))"
| "fire s (FlushTimer now) =
     (case flushing s of
        FWaiting due \<Rightarrow>
          if due \<le> now then Some ((sendPending now s)\<lparr>flushing := FPublishing\<rparr>) else None
      | _ \<Rightarrow> None)"
| "fire s (FlushPublishDone ok now) =
     (if flushing s \<noteq> FPublishing then None
      else Some (s\<lparr>flushing := (if ok then FResolved else FRejected)\<rparr>))"

definition step :: "'c CardUpdateController \<Rightarrow> 'c SchedulerEvent \<Rightarrow> 'c CardUpdateController option" where
  "step s e =
     (if eventTime e < clock s then None
      else map_option (\<lambda>s'. s'\<lparr>clock := eventTime e\<rparr>) (fire s e))"

fun run :: "'c CardUpdateController \<Rightarrow> 'c SchedulerEvent list \<Rightarrow> 'c CardUpdateController option" where
  "run s [] = Some s"
| "run s (e # es) = (case step s e of None \<Rightarrow> None | Some s' \<Rightarrow> run s' es)"




section \<open>The renderer controller (\<open>createAgentCardRenderer\<close>, line 343)\<close>

text \<open>
  The state of the closure. \<open>messageId\<close> is set once a message was created;
  \<open>updater\<close> tells whether the update controller exists. The external calls that an
  operation makes are returned as a list of actions, in order: the creation of the
  message (\<open>sendCardFeishu\<close>), a call of \<open>schedule\<close> and a call of \<open>flush\<close> of the
  update controller, whose behaviour is the state machine above.

  \<open>buildMentionedCardContent\<close> is not part of these sources: \<open>mentions\<close> is \<open>None\<close>
  when there are no mention targets, and otherwise the function that it applies to the
  body. Debug logging is left out.
\<close>

record Renderer =
  tracker :: AgentRunTracker
  messageId :: "string option"
  assistantBuffer :: string
  assistantBufferState :: string
  updater :: bool

datatype Action = CreateMessage LarkCard | ScheduleUpdate LarkCard | FlushUpdates

definition newRenderer :: Renderer where
  "newRenderer =
     \<lparr>tracker = newTracker, messageId = None, assistantBuffer = [],
      assistantBufferState = [], updater = False\<rparr>"

definition applyMentions :: "(string \<Rightarrow> string) option \<Rightarrow> string \<Rightarrow> string" where
  "applyMentions mentions text = (case mentions of None \<Rightarrow> text | Some f \<Rightarrow> f text)"

text \<open>\<open>renderCard\<close> (line 352): the card, and the call of \<open>schedule\<close> if there is one.\<close>

definition renderCard ::
  "(string \<Rightarrow> string) option \<Rightarrow> bool \<Rightarrow> Renderer \<Rightarrow> LarkCard \<times> Action list" where
  "renderCard mentions collapseTimeline r =
     (let state = buildRenderState collapseTimeline (tracker r);
          doc = buildLarkCard (state\<lparr>body := applyMentions mentions (body state)\<rparr>)
      in if \<not> truthy (messageId r) then (doc, [])
         else (doc, if updater r then [ScheduleUpdate doc] else []))"

text \<open>The three parts of \<open>deliver\<close> that change the tracker: the verbose events
  (lines 383 to 390), the canonical messages (lines 393 to 397) and the plain-text
  heuristic (lines 399 to 417).\<close>

definition deliverEvents ::
  "(int \<Rightarrow> string) \<Rightarrow> int \<Rightarrow> VerboseEvent list \<Rightarrow> Renderer \<Rightarrow> Renderer" where
  "deliverEvents fx now events r =
     (let st = foldl (applyVerboseEvent fx now) (tracker r, assistantBufferState r) events
      in r\<lparr>tracker := fst st, assistantBufferState := snd st,
           assistantBuffer := (if snd st \<noteq> [] then snd st else assistantBuffer r)\<rparr>)"

definition deliverMessages ::
  "(int \<Rightarrow> string) \<Rightarrow> int \<Rightarrow> AgentCoreMessage list \<Rightarrow> Renderer \<Rightarrow> Renderer" where
  "deliverMessages fx now messages r =
     (let t1 = (case inferStatusFromMessages messages of
                  Some nextStatus \<Rightarrow> setStatus nextStatus (tracker r)
                | None \<Rightarrow> tracker r)
      in r\<lparr>tracker := appendMessages fx now messages t1\<rparr>)"

definition deliverText :: "(int \<Rightarrow> string) \<Rightarrow> int \<Rightarrow> string \<Rightarrow> Renderer \<Rightarrow> Renderer" where
  "deliverText fx now payloadText r =
     (let (toolLines, remainingText) = splitToolSummaryLines payloadText;
          r1 = (if toolLines \<noteq> [] then
                  r\<lparr>tracker :=
                      appendMessages fx now [AssistantMessage (map TextPart toolLines)]
                        (setStatus ToolCalling (tracker r))\<rparr>
                else r)
      in if remainingText \<noteq> [] then
           (let buffer = mergeStreamText (assistantBuffer r1) remainingText;
                t2 = setDraftAnswer buffer (tracker r1)
            in r1\<lparr>assistantBuffer := buffer,
                  tracker := (if toolLines = [] then setStatus Thinking t2 else t2)\<rparr>)
         else r1)"

text \<open>The end of \<open>deliver\<close> (lines 423 to 431). \<open>created\<close> is the message id that
  \<open>sendCardFeishu\<close> returns, \<open>None\<close> when it fails; it is only read when a message
  is created.\<close>

definition deliverRender ::
  "(string \<Rightarrow> string) option \<Rightarrow> string option \<Rightarrow> Renderer \<Rightarrow> Renderer \<times> Action list" where
  "deliverRender mentions created r =
     (if \<not> truthy (messageId r) then
        (let doc = fst (renderCard mentions False r) in
         case created of
           None \<Rightarrow> (r, [CreateMessage doc])
         | Some newId \<Rightarrow> (r\<lparr>messageId := Some newId, updater := True\<rparr>, [CreateMessage doc]))
      else (r, snd (renderCard mentions False r)))"

text \<open>\<open>deliver\<close> (line 367).\<close>

definition deliver ::
  "(int \<Rightarrow> string) \<Rightarrow> int \<Rightarrow> (string \<Rightarrow> string) option \<Rightarrow> string option \<Rightarrow> ReplyPayload
   \<Rightarrow> Renderer \<Rightarrow> Renderer \<times> Action list" where
  "deliver fx now mentions created payload r =
     (let messages = extractAgentMessages payload;
          events = extractVerboseEvents payload;
          payloadText = (case p_text payload of Some t \<Rightarrow> t | None \<Rightarrow> []);
          hasEvents = (case events of Some evs \<Rightarrow> evs \<noteq> [] | None \<Rightarrow> False);
          hasMessages = (case messages of Some ms \<Rightarrow> ms \<noteq> [] | None \<Rightarrow> False);
          r1 = (if hasEvents then deliverEvents fx now (the events) r else r)
      in if hasMessages then deliverRender mentions created (deliverMessages fx now (the messages) r1)
         else if trim payloadText \<noteq> [] then
           deliverRender mentions created (deliverText fx now payloadText r1)
         else if \<not> hasEvents then (r1, [])
         else deliverRender mentions created r1)"

text \<open>\<open>finalize\<close> (line 433) and \<open>onError\<close> (line 441).\<close>

definition finalize ::
  "(string \<Rightarrow> string) option \<Rightarrow> Renderer \<Rightarrow> Renderer \<times> Action list" where
  "finalize mentions r =
     (if \<not> truthy (messageId r) \<and> trim (assistantBuffer r) = []
         \<and> status (tracker r) = Thinking
      then (r, [])
      else
        (let r1 = r\<lparr>tracker := setStatus Completed (tracker r)\<rparr> in
         (r1, snd (renderCard mentions True r1) @ (if updater r1 then [FlushUpdates] else []))))"

definition onError ::
  "(string \<Rightarrow> string) option \<Rightarrow> Renderer \<Rightarrow> Renderer \<times> Action list" where
  "onError mentions r =
     (if \<not> truthy (messageId r) \<and> trim (assistantBuffer r) = [] then (r, [])
      else
        (let r1 = r\<lparr>tracker := setStatus Error (tracker r)\<rparr> in
         (r1, snd (renderCard mentions True r1) @ (if updater r1 then [FlushUpdates] else []))))"

text \<open>Sequences of operations on the tracker.\<close>

datatype TrackerOp =
    AppendMessages int "AgentCoreMessage list"
  | SetStatus AgentRunStatus
  | SetDraftAnswer string
  | Reset

fun applyOp :: "(int \<Rightarrow> string) \<Rightarrow> AgentRunTracker \<Rightarrow> TrackerOp \<Rightarrow> AgentRunTracker" where
  "applyOp fx s (AppendMessages now messages) = appendMessages fx now messages s"
| "applyOp fx s (SetStatus st) = setStatus st s"
| "applyOp fx s (SetDraftAnswer answer) = setDraftAnswer answer s"
| "applyOp fx s Reset = reset s"

definition runOps :: "(int \<Rightarrow> string) \<Rightarrow> TrackerOp list \<Rightarrow> AgentRunTracker" where
  "runOps fx ops = foldl (applyOp fx) newTracker ops"


text \<open>The update controller exists exactly when a message id was assigned; this holds
  of the new renderer and every operation keeps it.\<close>

definition wfRenderer :: "Renderer \<Rightarrow> bool" where
  "wfRenderer r \<longleftrightarrow> (updater r \<longleftrightarrow> messageId r \<noteq> None)"

text \<open>The card that \<open>finalize\<close> renders: status \<open>Completed\<close>, timeline collapsed.\<close>

definition finalCard :: "(string \<Rightarrow> string) option \<Rightarrow> Renderer \<Rightarrow> LarkCard" where
  "finalCard mentions r =
     fst (renderCard mentions True (r\<lparr>tracker := setStatus Completed (tracker r)\<rparr>))"


section \<open>Invariants of the update scheduler\<close>





section \<open>Invariants of the projection and of the tracker\<close>

text \<open>
  What holds of every entry that \<open>collectDisplayChunks\<close> produces: only a tool-call
  entry has a tool-use id; an entry with a duration has a non-empty id; the content is
  not empty; and the content of a tool-call entry is the one built from its tool name
  and its duration.
\<close>

definition wfEntry :: "(int \<Rightarrow> string) \<Rightarrow> TimelineEntry \<Rightarrow> bool" where
  "wfEntry fx e \<longleftrightarrow>
     (kind e \<noteq> KToolCall \<longrightarrow> toolUseId e = None)
     \<and> (durationMs e \<noteq> None \<longrightarrow> truthy (toolUseId e))
     \<and> content e \<noteq> []
     \<and> (kind e = KToolCall \<longrightarrow>
          (\<exists>name. toolName e = Some name
             \<and> content e = buildToolCallContent fx name (durationMs e)))"

text \<open>The number of entries with the tool-use id \<open>t\<close>.\<close>

definition idCount :: "string \<Rightarrow> TimelineEntry list \<Rightarrow> nat" where
  "idCount t entries = length (filter (\<lambda>e. toolUseId e = Some t) entries)"

text \<open>
  What holds in every state that the tracker reaches: the entries are as above; the
  key of every entry with a non-empty id is in \<open>seen\<close>; every such key in \<open>seen\<close>
  has its entry in the timeline; and no non-empty id has two entries.
\<close>

definition trackerInv :: "(int \<Rightarrow> string) \<Rightarrow> AgentRunTracker \<Rightarrow> bool" where
  "trackerInv fx s \<longleftrightarrow>
     (\<forall>e\<in>set (timeline s). wfEntry fx e)
     \<and> (\<forall>e\<in>set (timeline s). \<forall>t. toolUseId e = Some t \<and> t \<noteq> [] \<longrightarrow> ''tool:'' @ t \<in> seen s)
     \<and> (\<forall>t. t \<noteq> [] \<and> ''tool:'' @ t \<in> seen s \<longrightarrow> (\<exists>e\<in>set (timeline s). toolUseId e = Some t))
     \<and> (\<forall>t. t \<noteq> [] \<longrightarrow> idCount t (timeline s) \<le> 1)"

text \<open>An entry as a tool-call part is first projected: no duration, and the bare call
  label as content.\<close>

definition isFresh :: "TimelineEntry \<Rightarrow> bool" where
  "isFresh e \<longleftrightarrow>
     kind e = KToolCall \<and> durationMs e = None
     \<and> (case toolName e of Some name \<Rightarrow> content e = formatToolCall name | None \<Rightarrow> False)"

definition freshFor :: "string \<Rightarrow> TimelineEntry list \<Rightarrow> bool" where
  "freshFor t entries \<longleftrightarrow> (\<forall>e\<in>set entries. toolUseId e = Some t \<longrightarrow> isFresh e)"

text \<open>What holds of the state of the loops of \<open>collectDisplayChunks\<close>: the entries are
  as above, and the correlation map sends a non-empty id to the position of a tool-call
  entry with that id and the recorded tool name.\<close>

definition collectorInv :: "(int \<Rightarrow> string) \<Rightarrow> Collector \<Rightarrow> bool" where
  "collectorInv fx c \<longleftrightarrow>
     (\<forall>e\<in>set (col_timeline c). wfEntry fx e)
     \<and> (\<forall>u m. col_toolEntryMap c u = Some m \<longrightarrow>
           u \<noteq> [] \<and> em_index m < length (col_timeline c)
           \<and> toolUseId (col_timeline c ! em_index m) = Some u
           \<and> kind (col_timeline c ! em_index m) = KToolCall
           \<and> toolName (col_timeline c ! em_index m) = Some (em_toolName m))"

text \<open>The tool-use ids of the tool-call parts and of the tool-result parts of a batch
  of messages.\<close>

fun partCallIds :: "AgentContentPart \<Rightarrow> string option list" where
  "partCallIds (ToolCallPart name uid startedAt) = [uid]"
| "partCallIds _ = []"

fun resultIds :: "AgentCoreMessage \<Rightarrow> string option list" where
  "resultIds (ToolMessage uid parts) = map tr_toolUseId parts"
| "resultIds _ = []"

definition batchCallIds :: "AgentCoreMessage list \<Rightarrow> string option list" where
  "batchCallIds messages = concat (map (\<lambda>m. concat (map partCallIds (assistantParts m))) messages)"

definition batchResultIds :: "AgentCoreMessage list \<Rightarrow> string option list" where
  "batchResultIds messages = concat (map resultIds messages)"


section \<open>Concrete inputs\<close>

text \<open>A tracker in a terminal state whose draft answer repeats, up to white space, the
  first text entry of its timeline: the entry has a no-break space (U+00A0) between its
  words, the draft starts with an ideographic space (U+3000) and ends with a no-break
  space.\<close>

definition exTracker :: AgentRunTracker where
  "exTracker =
     \<lparr>status = Completed,
      timeline =
        [\<lparr>kind = KText, content = ''Hello'' @ [CHR 0xC2, CHR 0xA0] @ ''world'', toolUseId = None,
          toolName = None, durationMs = None\<rparr>,
         \<lparr>kind = KThinking, content = ''Hello world'', toolUseId = None, toolName = None,
          durationMs = None\<rparr>,
         \<lparr>kind = KText, content = ''Other'', toolUseId = None, toolName = None,
          durationMs = None\<rparr>],
      seen = {},
      draftAnswer = [CHR 0xE3, CHR 0x80, CHR 0x80] @ ''Hello   world'' @ [CHR 0xC2, CHR 0xA0]\<rparr>"


text \<open>The payload of the end-to-end scenario with a tool summary line, the line it
  becomes, and a stand-in for the number formatter.\<close>

definition exTextPayload :: ReplyPayload where
  "exTextPayload =
     \<lparr>p_text = Some ''web_search: query=foo\<newline>Here are the results'',
      p_messages = None, p_meta_agentMessages = None, p_meta_messages = None,
      p_extra_messages = None, p_context_messages = None, p_delta_messages = None,
      p_events = None, p_meta_events = None, p_extra_events = None,
      p_context_events = None, p_delta_events = None\<rparr>"

definition webSearchLine :: string where
  "webSearchLine =
     [CHR 0xE8, CHR 0xB0, CHR 0x83, CHR 0xE7, CHR 0x94, CHR 0xA8, CHR 0x60,
      CHR 0xE7, CHR 0xBD, CHR 0x91, CHR 0xE9, CHR 0xA1, CHR 0xB5, CHR 0xE6, CHR 0x90, CHR 0x9C, CHR 0xE7, CHR 0xB4, CHR 0xA2,
      CHR 0x60, CHR 0xE5, CHR 0xB7, CHR 0xA5, CHR 0xE5, CHR 0x85, CHR 0xB7] @ '': query=foo''"

definition exFx :: "int \<Rightarrow> string" where
  "exFx ms = ''1.5''"

text \<open>A verbose event that starts the tool \<open>read\<close> with call id \<open>t1\<close>, and a payload
  that carries this event together with a message sequence.\<close>

definition exToolStart :: VerboseEvent where
  "exToolStart =
     \<lparr>ev_stream = Some ''tool'', ev_event = None,
      ev_data = Some (emptyData\<lparr>d_phase := Some ''start'', d_name := Some ''read'',
                                 d_toolCallId := Some ''t1''\<rparr>),
      ev_payload = None\<rparr>"

definition exBothPayload :: ReplyPayload where
  "exBothPayload =
     \<lparr>p_text = None,
      p_messages = Some [AssistantMessage [TextPart ''hello'']],
      p_meta_agentMessages = None, p_meta_messages = None,
      p_extra_messages = None, p_context_messages = None, p_delta_messages = None,
      p_events = Some [exToolStart], p_meta_events = None, p_extra_events = None,
      p_context_events = None, p_delta_events = None\<rparr>"

text \<open>The same payload with a text as well, and with the events alone.\<close>

definition exAllPayload :: ReplyPayload where
  "exAllPayload = exBothPayload\<lparr>p_text := Some ''web_search: query=foo''\<rparr>"

definition exEventsPayload :: ReplyPayload where
  "exEventsPayload = exBothPayload\<lparr>p_messages := None\<rparr>"

text \<open>A payload with nothing in it, a payload with the text \<open>Hello\<close>, and the renderer
  after the delivery of the latter when the creation of the message fails, and when it
  succeeds.\<close>

definition exEmptyPayload :: ReplyPayload where
  "exEmptyPayload =
     \<lparr>p_text = None, p_messages = None,
      p_meta_agentMessages = None, p_meta_messages = None,
      p_extra_messages = None, p_context_messages = None, p_delta_messages = None,
      p_events = None, p_meta_events = None, p_extra_events = None,
      p_context_events = None, p_delta_events = None\<rparr>"

definition exHelloPayload :: ReplyPayload where
  "exHelloPayload = exEmptyPayload\<lparr>p_text := Some ''Hello''\<rparr>"

definition exFailedCreate :: Renderer where
  "exFailedCreate = fst (deliver exFx 0 None None exHelloPayload newRenderer)"

definition exCreated :: Renderer where
  "exCreated = fst (deliver exFx 0 None (Some ''om_1'') exHelloPayload newRenderer)"

text \<open>The renderer after the same delivery when the creation returns an empty message
  id.\<close>

definition exEmptyId :: Renderer where
  "exEmptyId = fst (deliver exFx 0 None (Some []) exHelloPayload newRenderer)"





text \<open>A tool call \<open>read\<close> with id \<open>t1\<close> started at 1000, its result completed at 2500,
  a verbose event ending that call, the tracker after the call alone and after call and
  result in one batch, the entry of the call with a given duration, and a batch of two
  tool calls whose id is the empty string.\<close>

definition exCallMessage :: AgentCoreMessage where
  "exCallMessage = AssistantMessage [ToolCallPart ''read'' (Some ''t1'') (Some 1000)]"

definition exResultMessage :: AgentCoreMessage where
  "exResultMessage =
     ToolMessage (Some ''t1'')
       [\<lparr>tr_toolUseId = Some ''t1'', tr_text = Some ''done'', tr_completedAt = Some 2500,
         tr_durationMs = None\<rparr>]"

definition exToolEnd :: VerboseEvent where
  "exToolEnd =
     \<lparr>ev_stream = Some ''tool'', ev_event = None,
      ev_data = Some (emptyData\<lparr>d_phase := Some ''end'', d_name := Some ''read'',
                                 d_toolCallId := Some ''t1'', d_durationMs := Some 1500\<rparr>),
      ev_payload = None\<rparr>"

definition exCalled :: AgentRunTracker where
  "exCalled = runOps exFx [AppendMessages 1000 [exCallMessage]]"

definition exTimed :: AgentRunTracker where
  "exTimed = runOps exFx [AppendMessages 1000 [exCallMessage, exResultMessage]]"

definition exReadEntry :: "int option \<Rightarrow> TimelineEntry" where
  "exReadEntry d =
     \<lparr>kind = KToolCall, content = buildToolCallContent exFx ''read'' d,
      toolUseId = Some ''t1'', toolName = Some ''read'', durationMs = d\<rparr>"

definition exEmptyIdOps :: "TrackerOp list" where
  "exEmptyIdOps =
     [AppendMessages 0
        [AssistantMessage [ToolCallPart ''a'' (Some []) None, ToolCallPart ''b'' (Some []) None]]]"


section \<open>Properties of the text merge\<close>

text \<open>
  C2. For the streaming text merge: merging a text with itself gives that text; merging
  \<open>P\<close> with a proper extension \<open>N\<close> of \<open>P\<close> gives \<open>N\<close>; merging \<open>P\<close> with a
  strict prefix \<open>N\<close> of \<open>P\<close> gives \<open>P\<close>.
\<close>

theorem mergeStreamText_idem_mono:
  "mergeStreamText P P = P
   \<and> (strict_prefix P N \<longrightarrow> mergeStreamText P N = N)
   \<and> (strict_prefix N P \<longrightarrow> mergeStreamText P N = P)"
proof (intro conjI impI)
  show "mergeStreamText P P = P"
    by (simp add: mergeStreamText_def)
next
  assume ext: "strict_prefix P N"
  then have "prefix P N" and "N \<noteq> []"
    by (auto simp: strict_prefix_def)
  then show "mergeStreamText P N = N"
    by (simp add: mergeStreamText_def)
next
  assume pre: "strict_prefix N P"
  then have le: "prefix N P" and ne: "N \<noteq> P"
    by (auto simp: strict_prefix_def)
  from le ne have "P \<noteq> []"
    by auto
  moreover from le ne have "\<not> prefix P N"
    by (auto dest: prefix_order.antisym)
  ultimately show "mergeStreamText P N = P"
    using le by (simp add: mergeStreamText_def)
qed

theorem mergeStreamText_idem_mono_witness:
  "mergeStreamText ''Hello'' ''Hello'' = ''Hello''
   \<and> strict_prefix ''Hello'' ''Hello world''
   \<and> mergeStreamText ''Hello'' ''Hello world'' = ''Hello world''
   \<and> strict_prefix ''Hel'' ''Hello''
   \<and> mergeStreamText ''Hello'' ''Hel'' = ''Hello''"
proof -
  have a: "strict_prefix ''Hello'' ''Hello world''"
    by (simp add: strict_prefix_def)
  have b: "strict_prefix ''Hel'' ''Hello''"
    by (simp add: strict_prefix_def)
  have c: "mergeStreamText ''Hello'' ''Hello'' = ''Hello''"
    using mergeStreamText_idem_mono [of "''Hello''" "''Hello''" ] by blast
  have d: "mergeStreamText ''Hello'' ''Hello world'' = ''Hello world''"
    using mergeStreamText_idem_mono [of "''Hello''" "''Hello world''"] a by blast
  have e: "mergeStreamText ''Hello'' ''Hel'' = ''Hello''"
    using mergeStreamText_idem_mono [of "''Hello''" "''Hel''"] b by blast
  from a b c d e show ?thesis by blast
qed

text \<open>The assistant branch of \<open>applyVerboseEvent\<close> (lines 193 to 200) repeats the merge
  in line: the buffer it leaves is the merge of the buffer with the text of the event.\<close>

lemma assistant_buffer_is_merge:
  assumes "eventStream evt = Some ''assistant''" and "d_text (eventData evt) = Some txt'"
  shows "snd (applyVerboseEvent fx now (tr, buffer) evt) = mergeStreamText buffer txt'"
  using assms by (auto simp: applyVerboseEvent_def mergeStreamText_def Let_def)

section \<open>Properties of the text functions\<close>

lemma stripLeading_None: "afterAny ws s = None \<Longrightarrow> stripLeading ws s = s"
  by (simp add: stripLeading.simps [of ws s])

lemma stripLeading_Some: "afterAny ws s = Some rest \<Longrightarrow> stripLeading ws s = stripLeading ws rest"
  by (simp add: stripLeading.simps [of ws s])

lemma afterAny_Nil: "afterAny ws [] = None"
  by (simp add: afterAny_def find_None_iff)

lemma stripLeading_Nil: "stripLeading ws [] = []"
  by (simp add: stripLeading_None afterAny_Nil)

lemma afterAny_None_iff: "afterAny ws s = None \<longleftrightarrow> (\<forall>w\<in>set ws. w = [] \<or> \<not> prefix w s)"
  by (auto simp: afterAny_def find_None_iff)

lemma afterAny_SomeD:
  "afterAny ws s = Some rest \<Longrightarrow> \<exists>w\<in>set ws. w \<noteq> [] \<and> s = w @ rest"
  by (auto simp: afterAny_def find_Some_iff prefix_def)

lemma afterAny_stripLeading: "afterAny ws (stripLeading ws s) = None"
proof (induction ws s rule: stripLeading.induct)
  case (1 ws s)
  show ?case
  proof (cases "afterAny ws s")
    case None
    then show ?thesis by (simp add: stripLeading_None)
  next
    case (Some rest)
    with 1 [OF Some] show ?thesis by (simp add: stripLeading_Some)
  qed
qed

lemma stripLeading_idem: "stripLeading ws (stripLeading ws s) = stripLeading ws s"
  by (simp add: stripLeading_None afterAny_stripLeading)

lemma stripLeading_suffix: "suffix (stripLeading ws s) s"
proof (induction ws s rule: stripLeading.induct)
  case (1 ws s)
  show ?case
  proof (cases "afterAny ws s")
    case None
    then show ?thesis by (simp add: stripLeading_None)
  next
    case (Some rest)
    from afterAny_SomeD [OF Some] have "suffix rest s" by (auto simp: suffix_def)
    with 1 [OF Some] show ?thesis by (simp add: stripLeading_Some Some)
  qed
qed

text \<open>A string that is stripped to nothing is made of the sequences.\<close>

lemma stripLeading_Nil_concat:
  "stripLeading ws s = [] \<Longrightarrow> \<exists>zs. set zs \<subseteq> set ws - {[]} \<and> s = concat zs"
proof (induction ws s rule: stripLeading.induct)
  case (1 ws s)
  show ?case
  proof (cases "afterAny ws s")
    case None
    with 1(2) have "s = []" by (simp add: stripLeading_None)
    then show ?thesis by (intro exI [of _ "[]"]) simp
  next
    case (Some rest)
    with 1(2) have "stripLeading ws rest = []" by (simp add: stripLeading_Some)
    from 1(1) [OF Some this] obtain zs where zs: "set zs \<subseteq> set ws - {[]}" "rest = concat zs"
      by blast
    from afterAny_SomeD [OF Some] obtain w where w: "w \<in> set ws" "w \<noteq> []" "s = w @ rest"
      by blast
    with zs show ?thesis by (intro exI [of _ "w # zs"]) simp
  qed
qed

lemma trimEnd_Nil_head:
  assumes "trimEnd x = []" "x \<noteq> []"
  shows "afterAny whiteSpaces x \<noteq> None"
proof -
  from assms(1) have "stripLeading (map rev whiteSpaces) (rev x) = []"
    by (simp add: trimEnd_def)
  from stripLeading_Nil_concat [OF this] obtain zs where
    zs: "set zs \<subseteq> set (map rev whiteSpaces) - {[]}" "rev x = concat zs"
    by blast
  from zs(2) have "x = rev (concat zs)" by (metis rev_rev_ident)
  then have x: "x = concat (map rev (rev zs))" by (simp add: rev_concat)
  with assms(2) have "zs \<noteq> []" by auto
  then obtain z zs' where z: "zs = zs' @ [z]" by (metis rev_exhaust)
  with x have "x = rev z @ concat (map rev (rev zs'))" by simp
  then have "prefix (rev z) x" by (simp add: prefix_def)
  moreover from zs(1) z have "rev z \<in> set whiteSpaces" "rev z \<noteq> []" by auto
  ultimately show ?thesis by (auto simp: afterAny_None_iff)
qed

lemma trimEnd_Nil: "trimEnd [] = []"
  by (simp add: trimEnd_def stripLeading_Nil)

lemma trimEnd_prefix: "prefix (trimEnd s) s"
  using stripLeading_suffix [of "map rev whiteSpaces" "rev s"]
  by (simp add: trimEnd_def suffix_to_prefix)

lemma trim_eq_Nil_iff: "trim s = [] \<longleftrightarrow> trimStart s = []"
proof
  assume "trim s = []"
  then have "trimEnd (trimStart s) = []" by (simp add: trim_def)
  then show "trimStart s = []"
    using trimEnd_Nil_head [of "trimStart s"] afterAny_stripLeading [of whiteSpaces s]
    by (auto simp: trimStart_def)
next
  assume "trimStart s = []"
  then show "trim s = []" by (simp add: trim_def trimEnd_Nil)
qed

lemma trimStart_trim: "trim a \<noteq> [] \<Longrightarrow> trimStart (trim a) = trim a"
proof -
  assume "trim a \<noteq> []"
  have "afterAny whiteSpaces (trimStart a) = None"
    by (simp add: trimStart_def afterAny_stripLeading)
  moreover have "prefix (trim a) (trimStart a)"
    by (simp add: trim_def trimEnd_prefix)
  ultimately have "afterAny whiteSpaces (trim a) = None"
    unfolding afterAny_None_iff by (meson prefix_order.trans)
  then show ?thesis by (simp add: trimStart_def stripLeading_None)
qed

lemma trim_trim_eq_Nil_iff: "trim (trim a) = [] \<longleftrightarrow> trim a = []"
proof (cases "trim a = []")
  case True
  then show ?thesis by (simp add: trim_def trimStart_def trimEnd_def stripLeading_Nil)
next
  case False
  then show ?thesis by (simp add: trim_eq_Nil_iff [of "trim a"] trimStart_trim)
qed


lemma after_space: "afterAny whiteSpaces (CHR '' '' # z) = Some z"
  by (simp add: afterAny_def whiteSpaces_def)

lemma tails_continue:
  "w \<in> set whiteSpaces \<Longrightarrow> \<forall>b\<in>set (tl w). 128 \<le> (of_char b :: nat) \<and> (of_char b :: nat) < 192"
  by (auto simp: whiteSpaces_def)

lemma heads_start:
  "v \<in> set whiteSpaces \<Longrightarrow> \<not> (128 \<le> (of_char (hd v) :: nat) \<and> (of_char (hd v) :: nat) < 192)"
  by (auto simp: whiteSpaces_def)

lemma tails_not_heads:
  "w \<in> set whiteSpaces \<Longrightarrow> b \<in> set (tl w) \<Longrightarrow> v \<in> set whiteSpaces \<Longrightarrow> hd v \<noteq> b"
  using tails_continue [of w] heads_start [of v] by blast

lemma space_is_head: "\<exists>v\<in>set whiteSpaces. hd v = CHR '' ''"
  by (simp add: whiteSpaces_def)

lemma replaceRuns_prefix:
  "prefix w (replaceRuns whiteSpaces (CHR '' '') cs) \<Longrightarrow> \<forall>b\<in>set w. \<forall>v\<in>set whiteSpaces. hd v \<noteq> b
     \<Longrightarrow> prefix w cs"
proof (induction w arbitrary: cs)
  case Nil
  then show ?case by simp
next
  case (Cons b w)
  from Cons.prems(1) obtain d ds where cs: "cs = d # ds" by (cases cs) auto
  show ?case
  proof (cases "afterAny whiteSpaces (d # ds)")
    case None
    with Cons.prems(1) cs have "b = d" "prefix w (replaceRuns whiteSpaces (CHR '' '') ds)"
      by auto
    with Cons.IH [of ds] Cons.prems(2) cs show ?thesis by simp
  next
    case (Some rest)
    with Cons.prems(1) cs have "b = CHR '' ''" by auto
    with Cons.prems(2) space_is_head show ?thesis by auto
  qed
qed

lemma afterAny_replaceRuns:
  assumes "afterAny whiteSpaces (c # cs) = None"
  shows "afterAny whiteSpaces (c # replaceRuns whiteSpaces (CHR '' '') cs) = None"
proof -
  have "w = [] \<or> \<not> prefix w (c # replaceRuns whiteSpaces (CHR '' '') cs)"
    if w: "w \<in> set whiteSpaces" for w
  proof (cases w)
    case Nil
    then show ?thesis by simp
  next
    case (Cons a w')
    show ?thesis
    proof (rule disjI2, rule notI)
      assume p: "prefix w (c # replaceRuns whiteSpaces (CHR '' '') cs)"
      with Cons have a: "a = c" and p': "prefix w' (replaceRuns whiteSpaces (CHR '' '') cs)"
        by auto
      from w Cons have "\<forall>b\<in>set w'. \<forall>v\<in>set whiteSpaces. hd v \<noteq> b"
        using tails_not_heads [of w] by auto
      from replaceRuns_prefix [OF p' this] a Cons have "prefix w (c # cs)" by simp
      with assms w Cons show False by (auto simp: afterAny_None_iff)
    qed
  qed
  then show ?thesis by (simp add: afterAny_None_iff)
qed

lemma replaceRuns_blank:
  "ws = whiteSpaces \<Longrightarrow> r = CHR '' '' \<Longrightarrow>
   stripLeading ws (replaceRuns ws r s) = [] \<longleftrightarrow> stripLeading ws s = []"
proof (induction ws r s rule: replaceRuns.induct)
  case (1 ws r)
  show ?case by simp
next
  case (2 ws r c cs)
  show ?case
  proof (cases "afterAny ws (c # cs)")
    case None
    with 2(3,4) have "afterAny ws (c # replaceRuns ws r cs) = None"
      by (simp add: afterAny_replaceRuns)
    with None show ?thesis by (simp add: stripLeading_None)
  next
    case (Some rest)
    have "stripLeading ws (c # cs) = stripLeading ws rest"
      by (rule stripLeading_Some [OF Some])
    with 2(2) [OF Some 2(3,4)] Some 2(3,4) show ?thesis
      by (simp add: stripLeading_Some [OF after_space] stripLeading_idem)
  qed
qed

lemma normalizeWhitespace_eq_Nil_iff: "normalizeWhitespace a = [] \<longleftrightarrow> trim a = []"
  by (simp add: normalizeWhitespace_def trim_eq_Nil_iff trimStart_def replaceRuns_blank)

lemma normalizeText_eq_Nil_iff: "normalizeText (Some a) = [] \<longleftrightarrow> trim a = []"
  by (simp add: normalizeText_def trim_eq_Nil_iff trimStart_def replaceRuns_blank)

lemma trim_Nil [simp]: "trim [] = []"
  by (simp add: trim_def trimStart_def trimEnd_Nil stripLeading_Nil)

text \<open>The rules that evaluate the text functions on a given string.\<close>

lemma stripLeading_Cons:
  "stripLeading ws (c # cs) =
     (case afterAny ws (c # cs) of None \<Rightarrow> c # cs | Some rest \<Rightarrow> stripLeading ws rest)"
  by (rule stripLeading.simps)

lemma afterAny_Cons:
  "afterAny ws (c # cs) =
     map_option (\<lambda>w. drop (length w) (c # cs)) (find (\<lambda>w. w \<noteq> [] \<and> prefix w (c # cs)) ws)"
  by (rule afterAny_def)

lemmas text_eval =
  trim_def trimStart_def trimEnd_def stripLeading_Nil stripLeading_Cons afterAny_Nil
  afterAny_Cons whiteSpaces_def

section \<open>Terminal filtering in the render projector\<close>

text \<open>
  C7. When the status is terminal and the trimmed draft answer is not empty, the
  rendered timeline is the tracker's timeline without the text entries whose
  white-space-normalized content equals the white-space-normalized final answer (entries
  of another kind are kept), and the timeline markdown is made of the lines of the
  entries that remain; the body is the trimmed draft answer, and the timeline panel is
  shown exactly when an entry remains. The card built from this state has the trimmed
  draft answer as its body and, exactly when an entry remains, a panel with that
  markdown. White space is that of JavaScript, so a no-break space or an ideographic
  space counts as one.
\<close>

theorem terminal_filtering:
  assumes "isTerminalStatus (status s)" and "trim (draftAnswer s) \<noteq> []"
  shows "rs_timeline (buildRenderState c s) =
           filter (\<lambda>entry. kind entry \<noteq> KText
                     \<or> normalizeText (Some (content entry))
                         \<noteq> normalizeText (Some (trim (draftAnswer s))))
             (timeline s)
         \<and> timelineMarkdown (buildRenderState c s) =
             joinWith ''\<newline>''
               (filter (\<lambda>line. line \<noteq> [])
                  (map formatTimelineEntry
                     (filter (\<lambda>entry. kind entry \<noteq> KText
                                \<or> normalizeText (Some (content entry))
                                    \<noteq> normalizeText (Some (trim (draftAnswer s))))
                        (timeline s))))
         \<and> body (buildRenderState c s) = trim (draftAnswer s)
         \<and> finalAnswer (buildRenderState c s) = Some (trim (draftAnswer s))
         \<and> showTimelinePanel (buildRenderState c s) = (rs_timeline (buildRenderState c s) \<noteq> [])
         \<and> card_body (buildLarkCard (buildRenderState c s)) = trim (draftAnswer s)
         \<and> card_panel (buildLarkCard (buildRenderState c s)) =
             (if rs_timeline (buildRenderState c s) = [] then None
              else Some (\<not> c,
                         if timelineMarkdown (buildRenderState c s) \<noteq> []
                         then timelineMarkdown (buildRenderState c s)
                         else noTimelineRecord))"
proof -
  have "normalizeText (Some (trim (draftAnswer s))) \<noteq> []"
    using assms(2) by (simp add: normalizeText_eq_Nil_iff trim_trim_eq_Nil_iff)
  then have "filterTimelineEntries (timeline s) (Some (trim (draftAnswer s))) =
      filter (\<lambda>entry. kind entry \<noteq> KText
                     \<or> normalizeText (Some (content entry))
                         \<noteq> normalizeText (Some (trim (draftAnswer s))))
             (timeline s)"
    using assms(2) by (auto simp: filterTimelineEntries_def Let_def intro: filter_cong)
  then show ?thesis
    using assms by (simp add: buildRenderState_def buildLarkCard_def Let_def)
qed

lemma exTracker_texts:
  "normalizeText (Some (''Hello'' @ [CHR 0xC2, CHR 0xA0] @ ''world'')) = ''Hello world''"
  "normalizeText (Some ''Other'') = ''Other''"
  "trim ([CHR 0xE3, CHR 0x80, CHR 0x80] @ ''Hello   world'' @ [CHR 0xC2, CHR 0xA0]) = ''Hello   world''"
  "normalizeText (Some ''Hello   world'') = ''Hello world''"
  by (simp_all add: normalizeText_def text_eval)

theorem terminal_filtering_witness:
  "isTerminalStatus (status exTracker) \<and> trim (draftAnswer exTracker) \<noteq> []
   \<and> rs_timeline (buildRenderState True exTracker) =
        [\<lparr>kind = KThinking, content = ''Hello world'', toolUseId = None, toolName = None,
          durationMs = None\<rparr>,
         \<lparr>kind = KText, content = ''Other'', toolUseId = None, toolName = None,
          durationMs = None\<rparr>]
   \<and> timelineMarkdown (buildRenderState True exTracker) =
        ''*'' @ [CHR 0xE6, CHR 0x80, CHR 0x9D, CHR 0xE8, CHR 0x80, CHR 0x83]
        @ ''*: Hello world\<newline>Other''
   \<and> body (buildRenderState True exTracker) = ''Hello   world''
   \<and> showTimelinePanel (buildRenderState True exTracker)
   \<and> card_panel (buildLarkCard (buildRenderState True exTracker)) =
        Some (False, ''*'' @ [CHR 0xE6, CHR 0x80, CHR 0x9D, CHR 0xE8, CHR 0x80, CHR 0x83]
                     @ ''*: Hello world\<newline>Other'')"
proof -
  have a: "isTerminalStatus (status exTracker)"
    by (simp add: exTracker_def isTerminalStatus_def)
  have b: "trim (draftAnswer exTracker) \<noteq> []"
    using exTracker_texts(3) by (simp add: exTracker_def)
  from terminal_filtering [OF a b, of True] show ?thesis
    using a b exTracker_texts by (simp add: exTracker_def formatTimelineEntry_def)
qed


section \<open>Delivery of a text payload with a tool summary line\<close>

lemma ex_lines: "splitLines ''web_search: query=foo\<newline>Here are the results'' =
   [''web_search: query=foo'', ''Here are the results'']"
  by (simp add: splitLines_def)

lemma ex_trims: "trim ''web_search: query=foo'' = ''web_search: query=foo''"
  "trim ''Here are the results'' = ''Here are the results''"
  "trim ''web_search'' = ''web_search''"
  "trim ''query=foo'' = ''query=foo''"
  by (simp_all add: text_eval)

lemma ex_match1: "matchToolLine ''web_search: query=foo'' = Some (''web_search'', ''query=foo'')"
  by (simp add: matchToolLine_def prefixChars_def text_eval isAlpha_def isNameChar_def)

lemma ex_match2: "matchToolLine ''Here are the results'' = None"
  by (simp add: matchToolLine_def prefixChars_def text_eval isAlpha_def isNameChar_def)

lemma ex_label: "TOOL_NAME_LABELS ''web_search'' =
   Some [CHR 0xE7, CHR 0xBD, CHR 0x91, CHR 0xE9, CHR 0xA1, CHR 0xB5, CHR 0xE6, CHR 0x90, CHR 0x9C, CHR 0xE7, CHR 0xB4, CHR 0xA2]"
  by (simp add: TOOL_NAME_LABELS_def)

lemma ex_toolLine: "toolLineOf (''web_search'', ''query=foo'') = webSearchLine"
  by (simp add: toolLineOf_def ex_trims toLowerChar_def text_eval ex_label toolHeader_def webSearchLine_def)

lemma ex_split: "splitToolSummaryLines ''web_search: query=foo\<newline>Here are the results'' =
   ([webSearchLine], ''\<newline>\<newline>Here are the results'')"
  by (simp add: splitToolSummaryLines_def ex_lines ex_trims ex_match1 ex_match2 ex_toolLine)

lemma ex_line_trim: "trim webSearchLine = webSearchLine"
  by (simp add: text_eval webSearchLine_def)

lemma ex_line_nonempty: "webSearchLine \<noteq> []"
  by (simp add: webSearchLine_def)

lemma ex_collect: "collectDisplayChunks fx now [AssistantMessage [TextPart webSearchLine]] =
   \<lparr>chunk_timeline = [\<lparr>kind = KText, content = webSearchLine, toolUseId = None, toolName = None, durationMs = None\<rparr>],
    finalText = webSearchLine\<rparr>"
  by (simp add: collectDisplayChunks_def emptyCollector_def normalizeWhitespace_eq_Nil_iff ex_line_trim ex_line_nonempty)

lemma ex_key: "getTimelineEntryKey \<lparr>kind = KText, content = webSearchLine, toolUseId = None, toolName = None, durationMs = None\<rparr> = ''text|'' @ webSearchLine"
  by (simp add: getTimelineEntryKey_def)

lemma ex_append: "appendMessages fx now [AssistantMessage [TextPart webSearchLine]] (setStatus ToolCalling newTracker) =
   \<lparr>status = ToolCalling,
    timeline = [\<lparr>kind = KText, content = webSearchLine, toolUseId = None, toolName = None, durationMs = None\<rparr>],
    seen = {''text|'' @ webSearchLine},
    draftAnswer = webSearchLine\<rparr>"
  by (simp add: appendMessages_def ex_collect appendEntry_def ex_key ex_line_nonempty setStatus_def newTracker_def)

lemma ex_extract: "extractAgentMessages exTextPayload = None" "extractVerboseEvents exTextPayload = None"
  by (simp_all add: extractAgentMessages_def extractVerboseEvents_def exTextPayload_def)

lemma ex_text_trim: "trim ''web_search: query=foo\<newline>Here are the results'' \<noteq> []"
  by (simp add: text_eval)

lemma ex_deliverText:
  "deliverText fx now ''web_search: query=foo\<newline>Here are the results'' newRenderer =
     newRenderer\<lparr>tracker :=
        \<lparr>status = ToolCalling,
         timeline = [\<lparr>kind = KText, content = webSearchLine, toolUseId = None, toolName = None, durationMs = None\<rparr>],
         seen = {''text|'' @ webSearchLine},
         draftAnswer = ''\<newline>\<newline>Here are the results''\<rparr>,
       assistantBuffer := ''\<newline>\<newline>Here are the results''\<rparr>"
  by (simp add: deliverText_def ex_split newRenderer_def ex_append mergeStreamText_def setDraftAnswer_def Let_def)

text \<open>
  C8 (as amended). Delivering the payload whose text is \<open>web_search: query=foo\<close>, a
  line feed, \<open>Here are the results\<close>, with no messages and no events, to a new
  renderer sets the status to \<open>ToolCalling\<close>, puts exactly one entry into the
  timeline, of kind text, whose content is the call header with the localized label of
  \<open>web_search\<close> followed by \<open>query=foo\<close>, and makes the draft answer two line
  feeds followed by \<open>Here are the results\<close>; trimmed, that is \<open>Here are the results\<close>.
\<close>

theorem deliver_web_search:
  "tracker (fst (deliver fx now mentions created exTextPayload newRenderer)) =
     \<lparr>status = ToolCalling,
      timeline = [\<lparr>kind = KText, content = webSearchLine, toolUseId = None, toolName = None, durationMs = None\<rparr>],
      seen = {''text|'' @ webSearchLine},
      draftAnswer = ''\<newline>\<newline>Here are the results''\<rparr>
   \<and> webSearchLine = toolHeader (the (TOOL_NAME_LABELS ''web_search'')) @ '' query=foo''
   \<and> trim ''\<newline>\<newline>Here are the results'' = ''Here are the results''"
proof -
  have t: "tracker (fst (deliverRender mentions created r)) = tracker r" for r
    by (simp add: deliverRender_def Let_def split: option.splits)
  have "deliver fx now mentions created exTextPayload newRenderer =
      deliverRender mentions created
        (deliverText fx now ''web_search: query=foo\<newline>Here are the results'' newRenderer)"
    using ex_text_trim by (simp add: deliver_def ex_extract) (simp add: exTextPayload_def)
  then have "tracker (fst (deliver fx now mentions created exTextPayload newRenderer)) =
      tracker (deliverText fx now ''web_search: query=foo\<newline>Here are the results'' newRenderer)"
    by (simp add: t)
  moreover have "webSearchLine = toolHeader (the (TOOL_NAME_LABELS ''web_search'')) @ '' query=foo''"
    by (simp add: ex_label toolHeader_def webSearchLine_def)
  moreover have "trim ''\<newline>\<newline>Here are the results'' = ''Here are the results''"
    by (simp add: text_eval)
  ultimately show ?thesis
    by (simp add: ex_deliverText)
qed

text \<open>The claim as stated fails: the draft answer is not \<open>Here are the results\<close>,
  and the one timeline entry is not of kind tool-call.\<close>

theorem deliver_web_search_counterexample:
  "draftAnswer (tracker (fst (deliver exFx 0 None (Some ''om_1'') exTextPayload newRenderer)))
     \<noteq> ''Here are the results''
   \<and> map kind (timeline (tracker (fst (deliver exFx 0 None (Some ''om_1'') exTextPayload newRenderer))))
     = [KText]"
proof -
  have t: "tracker (fst (deliverRender mentions created r)) = tracker r" for r mentions created
    by (simp add: deliverRender_def Let_def split: option.splits)
  have "deliver exFx 0 None (Some ''om_1'') exTextPayload newRenderer =
      deliverRender None (Some ''om_1'')
        (deliverText exFx 0 ''web_search: query=foo\<newline>Here are the results'' newRenderer)"
    using ex_text_trim by (simp add: deliver_def ex_extract) (simp add: exTextPayload_def)
  then show ?thesis
    by (simp add: t ex_deliverText)
qed

section \<open>The paths of a delivery, and finalization\<close>

lemma firstCandidate_nonempty: "firstCandidate ok cands = Some xs \<Longrightarrow> xs \<noteq> []"
  by (induction ok cands rule: firstCandidate.induct) (auto split: if_splits)

lemma deliver_nothing:
  assumes "extractAgentMessages p = None" "extractVerboseEvents p = None"
    "trim (case p_text p of Some t \<Rightarrow> t | None \<Rightarrow> []) = []"
  shows "deliver fx now mentions created p r = (r, [])"
  using assms by (simp add: deliver_def Let_def)

lemma ex_hello: "trim ''hello'' = ''hello''"
  by (simp add: text_eval)

lemma ex_collect_hello:
  "collectDisplayChunks fx now [AssistantMessage [TextPart ''hello'']] =
     \<lparr>chunk_timeline = [\<lparr>kind = KText, content = ''hello'', toolUseId = None, toolName = None, durationMs = None\<rparr>],
      finalText = ''hello''\<rparr>"
  by (simp add: collectDisplayChunks_def emptyCollector_def normalizeWhitespace_eq_Nil_iff ex_hello)

lemma formatToolCall_nonempty: "formatToolCall name \<noteq> []"
  by (simp add: formatToolCall_def)

lemma ex_collect_call:
  "chunk_timeline (collectDisplayChunks fx now [AssistantMessage [ToolCallPart ''read'' (Some ''t1'') st]]) =
     [\<lparr>kind = KToolCall, content = formatToolCall ''read'', toolUseId = Some ''t1'', toolName = Some ''read'', durationMs = None\<rparr>]"
  "finalText (collectDisplayChunks fx now [AssistantMessage [ToolCallPart ''read'' (Some ''t1'') st]]) = []"
  by (simp_all add: collectDisplayChunks_def emptyCollector_def buildToolCallContent_def Let_def)

lemma ex_events_step:
  "deliverEvents fx now [exToolStart] newRenderer =
     newRenderer\<lparr>tracker :=
       \<lparr>status = ToolCalling,
        timeline = [\<lparr>kind = KToolCall, content = formatToolCall ''read'', toolUseId = Some ''t1'', toolName = Some ''read'', durationMs = None\<rparr>],
        seen = {''tool:t1''}, draftAnswer = []\<rparr>\<rparr>"
  by (simp add: deliverEvents_def applyVerboseEvent_def eventStream_def eventData_def exToolStart_def
      emptyData_def appendMessages_def ex_collect_call appendEntry_def getTimelineEntryKey_def
      formatToolCall_nonempty setStatus_def newTracker_def newRenderer_def Let_def)

lemma ex_messages_step:
  "tracker (deliverMessages fx now [AssistantMessage [TextPart ''hello'']] r) =
     appendEntry (tracker r) \<lparr>kind = KText, content = ''hello'', toolUseId = None, toolName = None, durationMs = None\<rparr>
       \<lparr>draftAnswer := ''hello''\<rparr>"
  by (simp add: deliverMessages_def inferStatusFromMessages_def appendMessages_def ex_collect_hello Let_def)

lemma tracker_deliverRender: "tracker (fst (deliverRender mentions created r)) = tracker r"
  by (simp add: deliverRender_def Let_def split: option.splits)

lemma ex_both_extract:
  "extractAgentMessages exBothPayload = Some [AssistantMessage [TextPart ''hello'']]"
  "extractVerboseEvents exBothPayload = Some [exToolStart]"
  "extractAgentMessages (exBothPayload\<lparr>p_events := None\<rparr>) = Some [AssistantMessage [TextPart ''hello'']]"
  "extractVerboseEvents (exBothPayload\<lparr>p_events := None\<rparr>) = None"
  "extractAgentMessages (exBothPayload\<lparr>p_messages := None\<rparr>) = None"
  "extractVerboseEvents (exBothPayload\<lparr>p_messages := None\<rparr>) = Some [exToolStart]"
  "p_text (exBothPayload\<lparr>p_messages := None\<rparr>) = None"
  by (simp_all add: extractAgentMessages_def extractVerboseEvents_def exBothPayload_def)

text \<open>
  The claim as stated fails: a payload with a message sequence and an event sequence
  changes the tracker through both. The timeline gets the entry of the event and then
  the entry of the message; with the messages alone or the events alone it gets one.
\<close>

theorem deliver_paths_counterexample:
  "map kind (timeline (tracker (fst (deliver exFx 0 None (Some ''om_1'') exBothPayload newRenderer))))
     = [KToolCall, KText]
   \<and> map kind (timeline (tracker (fst (deliver exFx 0 None (Some ''om_1'')
          (exBothPayload\<lparr>p_events := None\<rparr>) newRenderer))))
     = [KText]
   \<and> map kind (timeline (tracker (fst (deliver exFx 0 None (Some ''om_1'')
          (exBothPayload\<lparr>p_messages := None\<rparr>) newRenderer))))
     = [KToolCall]"
proof -
  have a: "map kind (timeline (tracker (fst (deliver exFx 0 None (Some ''om_1'') exBothPayload newRenderer))))
     = [KToolCall, KText]"
    by (simp add: deliver_def ex_both_extract tracker_deliverRender ex_messages_step ex_events_step
        appendEntry_def getTimelineEntryKey_def Let_def)
  have b: "map kind (timeline (tracker (fst (deliver exFx 0 None (Some ''om_1'')
          (exBothPayload\<lparr>p_events := None\<rparr>) newRenderer)))) = [KText]"
    by (simp add: deliver_def ex_both_extract tracker_deliverRender ex_messages_step
        appendEntry_def getTimelineEntryKey_def Let_def newRenderer_def newTracker_def)
  have c: "map kind (timeline (tracker (fst (deliver exFx 0 None (Some ''om_1'')
          (exBothPayload\<lparr>p_messages := None\<rparr>) newRenderer)))) = [KToolCall]"
    by (simp add: deliver_def ex_both_extract tracker_deliverRender ex_events_step Let_def)
  from a b c show ?thesis by simp
qed

lemma ex_hello_split: "splitToolSummaryLines ''Hello'' = ([], ''Hello'')"
  by (simp add: splitToolSummaryLines_def splitLines_def matchToolLine_def prefixChars_def text_eval
      isAlpha_def isNameChar_def)

lemma ex_hello_extract:
  "extractAgentMessages exHelloPayload = None" "extractVerboseEvents exHelloPayload = None"
  "p_text exHelloPayload = Some ''Hello''" "trim ''Hello'' = ''Hello''"
  by (simp_all add: extractAgentMessages_def extractVerboseEvents_def exHelloPayload_def
      exEmptyPayload_def text_eval)

lemma extract_with_text:
  "extractAgentMessages (p\<lparr>p_text := txt\<rparr>) = extractAgentMessages p"
  "extractVerboseEvents (p\<lparr>p_text := txt\<rparr>) = extractVerboseEvents p"
  by (simp_all add: extractAgentMessages_def extractVerboseEvents_def)

lemma deliver_messages_any_text:
  assumes "extractAgentMessages p = Some ms"
  shows "deliver fx now mentions created (p\<lparr>p_text := txt\<rparr>) r = deliver fx now mentions created p r"
proof -
  have ne: "ms \<noteq> []"
    using assms by (auto simp: extractAgentMessages_def dest: firstCandidate_nonempty)
  show ?thesis
    using assms ne by (simp add: deliver_def extract_with_text Let_def)
qed

lemma tracker_deliver_messages:
  assumes "extractAgentMessages p = Some ms"
  shows "tracker (fst (deliver fx now mentions created p r)) =
     appendMessages fx now ms
       (let afterEvents =
              (case extractVerboseEvents p of
                 Some evs \<Rightarrow>
                   fst (foldl (applyVerboseEvent fx now) (tracker r, assistantBufferState r) evs)
               | None \<Rightarrow> tracker r)
        in case inferStatusFromMessages ms of
             Some nextStatus \<Rightarrow> setStatus nextStatus afterEvents
           | None \<Rightarrow> afterEvents)"
proof -
  have ne: "ms \<noteq> []"
    using assms by (auto simp: extractAgentMessages_def dest: firstCandidate_nonempty)
  show ?thesis
  proof (cases "extractVerboseEvents p")
    case None
    with assms ne show ?thesis
      by (simp add: deliver_def tracker_deliverRender deliverMessages_def Let_def split: option.splits)
  next
    case (Some evs)
    then have "evs \<noteq> []"
      by (auto simp: extractVerboseEvents_def dest: firstCandidate_nonempty)
    with Some assms ne show ?thesis
      by (simp add: deliver_def tracker_deliverRender deliverMessages_def deliverEvents_def Let_def
          split: option.splits)
  qed
qed

lemma tracker_deliver_text:
  assumes "extractAgentMessages p = None"
    and "trim (case p_text p of Some t \<Rightarrow> t | None \<Rightarrow> []) \<noteq> []"
  shows "tracker (fst (deliver fx now mentions created p r)) =
     (let state =
            (case extractVerboseEvents p of
               Some evs \<Rightarrow> foldl (applyVerboseEvent fx now) (tracker r, assistantBufferState r) evs
             | None \<Rightarrow> (tracker r, []));
          afterEvents = fst state;
          buffer = (if snd state \<noteq> [] then snd state else assistantBuffer r);
          (toolLines, remainingText) =
            splitToolSummaryLines (case p_text p of Some t \<Rightarrow> t | None \<Rightarrow> []);
          t1 = (if toolLines \<noteq> [] then
                  appendMessages fx now [AssistantMessage (map TextPart toolLines)]
                    (setStatus ToolCalling afterEvents)
                else afterEvents)
      in if remainingText \<noteq> [] then
           (let t2 = setDraftAnswer (mergeStreamText buffer remainingText) t1
            in if toolLines = [] then setStatus Thinking t2 else t2)
         else t1)"
proof (cases "extractVerboseEvents p")
  case None
  with assms show ?thesis
    by (simp add: deliver_def tracker_deliverRender deliverText_def Let_def split: prod.splits)
next
  case (Some evs)
  then have "evs \<noteq> []"
    by (auto simp: extractVerboseEvents_def dest: firstCandidate_nonempty)
  with Some assms show ?thesis
    by (simp add: deliver_def tracker_deliverRender deliverText_def deliverEvents_def Let_def
        split: prod.splits)
qed

lemma tracker_deliver_events:
  assumes "extractAgentMessages p = None"
    and "trim (case p_text p of Some t \<Rightarrow> t | None \<Rightarrow> []) = []"
  shows "tracker (fst (deliver fx now mentions created p r)) =
     (case extractVerboseEvents p of
        Some evs \<Rightarrow> fst (foldl (applyVerboseEvent fx now) (tracker r, assistantBufferState r) evs)
      | None \<Rightarrow> tracker r)"
proof (cases "extractVerboseEvents p")
  case None
  with assms show ?thesis
    by (simp add: deliver_def Let_def)
next
  case (Some evs)
  then have "evs \<noteq> []"
    by (auto simp: extractVerboseEvents_def dest: firstCandidate_nonempty)
  with Some assms show ?thesis
    by (simp add: deliver_def tracker_deliverRender deliverEvents_def Let_def)
qed

text \<open>
  C1 (as amended). For every delivered payload the tracker becomes the following. A
  non-empty verbose-event sequence is always applied, first, event by event. With a
  non-empty canonical message sequence, the messages are then appended (after the
  status they imply is set), and the text of the payload is not read: the delivery is
  the same whatever the text. Without messages and with a text that is not blank, the
  plain-text heuristic acts after the events: the tool lines are appended under the
  status \<open>ToolCalling\<close> and the remaining text is merged into the draft answer. Without
  messages and with a blank text, the events alone act; and with no events either,
  nothing happens. So at most one of the messages and the text acts, the messages
  having priority, and the events act besides them.
\<close>

theorem deliver_paths:
  "(extractAgentMessages p = Some ms \<longrightarrow>
      tracker (fst (deliver fx now mentions created p r)) =
        appendMessages fx now ms
          (let afterEvents =
                 (case extractVerboseEvents p of
                    Some evs \<Rightarrow>
                      fst (foldl (applyVerboseEvent fx now) (tracker r, assistantBufferState r) evs)
                  | None \<Rightarrow> tracker r)
           in case inferStatusFromMessages ms of
                Some nextStatus \<Rightarrow> setStatus nextStatus afterEvents
              | None \<Rightarrow> afterEvents)
      \<and> (\<forall>txt. deliver fx now mentions created (p\<lparr>p_text := txt\<rparr>) r
                 = deliver fx now mentions created p r))
   \<and> (extractAgentMessages p = None
        \<and> trim (case p_text p of Some t \<Rightarrow> t | None \<Rightarrow> []) \<noteq> [] \<longrightarrow>
      tracker (fst (deliver fx now mentions created p r)) =
        (let state =
               (case extractVerboseEvents p of
                  Some evs \<Rightarrow>
                    foldl (applyVerboseEvent fx now) (tracker r, assistantBufferState r) evs
                | None \<Rightarrow> (tracker r, []));
             afterEvents = fst state;
             buffer = (if snd state \<noteq> [] then snd state else assistantBuffer r);
             (toolLines, remainingText) =
               splitToolSummaryLines (case p_text p of Some t \<Rightarrow> t | None \<Rightarrow> []);
             t1 = (if toolLines \<noteq> [] then
                     appendMessages fx now [AssistantMessage (map TextPart toolLines)]
                       (setStatus ToolCalling afterEvents)
                   else afterEvents)
         in if remainingText \<noteq> [] then
              (let t2 = setDraftAnswer (mergeStreamText buffer remainingText) t1
               in if toolLines = [] then setStatus Thinking t2 else t2)
            else t1))
   \<and> (extractAgentMessages p = None
        \<and> trim (case p_text p of Some t \<Rightarrow> t | None \<Rightarrow> []) = [] \<longrightarrow>
      tracker (fst (deliver fx now mentions created p r)) =
        (case extractVerboseEvents p of
           Some evs \<Rightarrow>
             fst (foldl (applyVerboseEvent fx now) (tracker r, assistantBufferState r) evs)
         | None \<Rightarrow> tracker r))
   \<and> (extractAgentMessages p = None \<and> extractVerboseEvents p = None
        \<and> trim (case p_text p of Some t \<Rightarrow> t | None \<Rightarrow> []) = [] \<longrightarrow>
      deliver fx now mentions created p r = (r, []))"
  using tracker_deliver_messages [of p ms fx now mentions created r]
    deliver_messages_any_text [of p ms fx now mentions created _ r]
    tracker_deliver_text [of p fx now mentions created r]
    tracker_deliver_events [of p fx now mentions created r]
    deliver_nothing [of p fx now mentions created r]
  by (intro conjI impI allI) simp_all


lemma ex_all_extract:
  "extractAgentMessages exAllPayload = Some [AssistantMessage [TextPart ''hello'']]"
  "extractVerboseEvents exAllPayload = Some [exToolStart]"
  "p_text exAllPayload = Some ''web_search: query=foo''"
  "exAllPayload\<lparr>p_text := None\<rparr> = exBothPayload"
  "extractAgentMessages exEventsPayload = None"
  "extractVerboseEvents exEventsPayload = Some [exToolStart]"
  "p_text exEventsPayload = None"
  by (simp_all add: extractAgentMessages_def extractVerboseEvents_def exAllPayload_def
      exEventsPayload_def exBothPayload_def)

lemma ex_events_fold:
  "applyVerboseEvent fx now (tracker newRenderer, assistantBufferState newRenderer)
     exToolStart =
   (\<lparr>status = ToolCalling,
     timeline = [\<lparr>kind = KToolCall, content = formatToolCall ''read'', toolUseId = Some ''t1'',
                  toolName = Some ''read'', durationMs = None\<rparr>],
     seen = {''tool:t1''}, draftAnswer = []\<rparr>, [])"
  by (simp add: applyVerboseEvent_def eventStream_def eventData_def exToolStart_def
      emptyData_def appendMessages_def ex_collect_call appendEntry_def getTimelineEntryKey_def
      formatToolCall_nonempty setStatus_def newTracker_def newRenderer_def Let_def)

lemma ex_append_hello:
  "appendMessages fx now [AssistantMessage [TextPart ''hello'']] t =
     appendEntry t \<lparr>kind = KText, content = ''hello'', toolUseId = None, toolName = None,
                     durationMs = None\<rparr>
       \<lparr>draftAnswer := ''hello''\<rparr>"
  by (simp add: appendMessages_def ex_collect_hello)

lemma ex_infer_hello: "inferStatusFromMessages [AssistantMessage [TextPart ''hello'']] = None"
  by (simp add: inferStatusFromMessages_def)

theorem deliver_paths_witness:
  "extractAgentMessages exAllPayload = Some [AssistantMessage [TextPart ''hello'']]
   \<and> extractVerboseEvents exAllPayload = Some [exToolStart]
   \<and> p_text exAllPayload = Some ''web_search: query=foo''
   \<and> tracker (fst (deliver exFx 0 None (Some ''om_1'') exAllPayload newRenderer)) =
       \<lparr>status = ToolCalling,
        timeline =
          [\<lparr>kind = KToolCall, content = formatToolCall ''read'', toolUseId = Some ''t1'',
            toolName = Some ''read'', durationMs = None\<rparr>,
           \<lparr>kind = KText, content = ''hello'', toolUseId = None, toolName = None,
            durationMs = None\<rparr>],
        seen = {''text|hello'', ''tool:t1''}, draftAnswer = ''hello''\<rparr>
   \<and> deliver exFx 0 None (Some ''om_1'') exBothPayload newRenderer
       = deliver exFx 0 None (Some ''om_1'') exAllPayload newRenderer
   \<and> extractAgentMessages exHelloPayload = None
   \<and> trim (case p_text exHelloPayload of Some t \<Rightarrow> t | None \<Rightarrow> []) \<noteq> []
   \<and> tracker (fst (deliver exFx 0 None (Some ''om_1'') exHelloPayload newRenderer)) =
       \<lparr>status = Thinking, timeline = [], seen = {}, draftAnswer = ''Hello''\<rparr>
   \<and> extractAgentMessages exEventsPayload = None
   \<and> trim (case p_text exEventsPayload of Some t \<Rightarrow> t | None \<Rightarrow> []) = []
   \<and> tracker (fst (deliver exFx 0 None (Some ''om_1'') exEventsPayload newRenderer)) =
       \<lparr>status = ToolCalling,
        timeline =
          [\<lparr>kind = KToolCall, content = formatToolCall ''read'', toolUseId = Some ''t1'',
            toolName = Some ''read'', durationMs = None\<rparr>],
        seen = {''tool:t1''}, draftAnswer = []\<rparr>
   \<and> extractAgentMessages exEmptyPayload = None \<and> extractVerboseEvents exEmptyPayload = None
   \<and> trim (case p_text exEmptyPayload of Some t \<Rightarrow> t | None \<Rightarrow> []) = []
   \<and> deliver exFx 0 None (Some ''om_1'') exEmptyPayload newRenderer = (newRenderer, [])"
proof -
  have e: "extractAgentMessages exEmptyPayload = None" "extractVerboseEvents exEmptyPayload = None"
    "trim (case p_text exEmptyPayload of Some t \<Rightarrow> t | None \<Rightarrow> []) = []"
    by (simp_all add: extractAgentMessages_def extractVerboseEvents_def exEmptyPayload_def)
  have a: "tracker (fst (deliver exFx 0 None (Some ''om_1'') exAllPayload newRenderer)) =
       \<lparr>status = ToolCalling,
        timeline =
          [\<lparr>kind = KToolCall, content = formatToolCall ''read'', toolUseId = Some ''t1'',
            toolName = Some ''read'', durationMs = None\<rparr>,
           \<lparr>kind = KText, content = ''hello'', toolUseId = None, toolName = None,
            durationMs = None\<rparr>],
        seen = {''text|hello'', ''tool:t1''}, draftAnswer = ''hello''\<rparr>"
    using deliver_paths [of exAllPayload "[AssistantMessage [TextPart ''hello'']]" exFx 0 None
        "Some ''om_1''" newRenderer]
    by (simp add: ex_all_extract ex_events_fold ex_append_hello ex_infer_hello appendEntry_def
        getTimelineEntryKey_def Let_def)
  have "deliver exFx 0 None (Some ''om_1'') (exAllPayload\<lparr>p_text := None\<rparr>) newRenderer
       = deliver exFx 0 None (Some ''om_1'') exAllPayload newRenderer"
    using deliver_paths [of exAllPayload "[AssistantMessage [TextPart ''hello'']]" exFx 0 None
        "Some ''om_1''" newRenderer] ex_all_extract(1)
    by blast
  then have b: "deliver exFx 0 None (Some ''om_1'') exBothPayload newRenderer
       = deliver exFx 0 None (Some ''om_1'') exAllPayload newRenderer"
    by (simp only: ex_all_extract(4))
  have c: "tracker (fst (deliver exFx 0 None (Some ''om_1'') exHelloPayload newRenderer)) =
       \<lparr>status = Thinking, timeline = [], seen = {}, draftAnswer = ''Hello''\<rparr>"
    using deliver_paths [of exHelloPayload "[]" exFx 0 None "Some ''om_1''" newRenderer]
    by (simp add: ex_hello_extract ex_hello_split mergeStreamText_def setDraftAnswer_def
        setStatus_def newRenderer_def newTracker_def)
  have d: "tracker (fst (deliver exFx 0 None (Some ''om_1'') exEventsPayload newRenderer)) =
       \<lparr>status = ToolCalling,
        timeline =
          [\<lparr>kind = KToolCall, content = formatToolCall ''read'', toolUseId = Some ''t1'',
            toolName = Some ''read'', durationMs = None\<rparr>],
        seen = {''tool:t1''}, draftAnswer = []\<rparr>"
    using deliver_paths [of exEventsPayload "[]" exFx 0 None "Some ''om_1''" newRenderer]
    by (simp add: ex_all_extract ex_events_fold)
  have f: "deliver exFx 0 None (Some ''om_1'') exEmptyPayload newRenderer = (newRenderer, [])"
    using deliver_paths [of exEmptyPayload "[]" exFx 0 None "Some ''om_1''" newRenderer] e
    by simp
  from a b c d e f show ?thesis
    by (simp add: ex_all_extract ex_hello_extract)
qed

lemma wfRenderer_new: "wfRenderer newRenderer"
  by (simp add: wfRenderer_def newRenderer_def)

lemma wfRenderer_deliverRender:
  "wfRenderer r \<Longrightarrow> wfRenderer (fst (deliverRender mentions created r))"
  by (auto simp: wfRenderer_def deliverRender_def Let_def split: option.splits)

lemma wfRenderer_deliver:
  "wfRenderer r \<Longrightarrow> wfRenderer (fst (deliver fx now mentions created p r))"
proof -
  assume w: "wfRenderer r"
  have a: "wfRenderer (deliverEvents fx now evs r)" for evs
    using w by (simp add: wfRenderer_def deliverEvents_def Let_def)
  have b: "wfRenderer r' \<Longrightarrow> wfRenderer (deliverMessages fx now ms r')" for ms r'
    by (simp add: wfRenderer_def deliverMessages_def Let_def)
  have c: "wfRenderer r' \<Longrightarrow> wfRenderer (deliverText fx now t r')" for t r'
    by (simp add: wfRenderer_def deliverText_def Let_def split: prod.splits)
  show ?thesis
    using w a b c by (simp add: deliver_def Let_def wfRenderer_deliverRender)
qed

lemma wfRenderer_finalize: "wfRenderer r \<Longrightarrow> wfRenderer (fst (finalize mentions r))"
  by (simp add: wfRenderer_def finalize_def Let_def)

lemma card_of_completed:
  "card_template (finalCard mentions r) = ''green''
   \<and> card_title (finalCard mentions r) = statusTitles Completed
   \<and> (case card_panel (finalCard mentions r) of None \<Rightarrow> True | Some (expanded, md) \<Rightarrow> \<not> expanded)"
  by (simp add: finalCard_def renderCard_def buildLarkCard_def buildRenderState_def setStatus_def Let_def)


text \<open>
  C9 (as amended). In a state of the renderer (\<open>wfRenderer\<close> holds of the new
  renderer and is kept by every operation): when no message was created,
  \<open>finalize\<close> makes no external call, whatever the draft text. When no message id
  is held (no message was created, or the creation returned an empty id), the draft
  text is blank and the status is \<open>Thinking\<close>, it changes nothing and does nothing.
  When no message id is held otherwise, it sets the status to \<open>Completed\<close> and
  schedules nothing; it awaits a flush exactly when a message was created. When a
  message id is held, it sets the status to \<open>Completed\<close>, schedules the card built
  from that state with the timeline collapsed, whose header is that of \<open>Completed\<close>,
  and awaits a flush.
\<close>

theorem finalize_actions:
  assumes "wfRenderer r"
  shows "(messageId r = None \<longrightarrow> snd (finalize mentions r) = [])
     \<and> (\<not> truthy (messageId r) \<and> trim (assistantBuffer r) = [] \<and> status (tracker r) = Thinking \<longrightarrow>
          finalize mentions r = (r, []))
     \<and> (\<not> truthy (messageId r)
          \<and> (trim (assistantBuffer r) \<noteq> [] \<or> status (tracker r) \<noteq> Thinking) \<longrightarrow>
          fst (finalize mentions r) = r\<lparr>tracker := (tracker r)\<lparr>status := Completed\<rparr>\<rparr>
          \<and> snd (finalize mentions r) = (if messageId r = None then [] else [FlushUpdates]))
     \<and> (truthy (messageId r) \<longrightarrow>
          fst (finalize mentions r) = r\<lparr>tracker := (tracker r)\<lparr>status := Completed\<rparr>\<rparr>
          \<and> status (tracker (fst (finalize mentions r))) = Completed
          \<and> snd (finalize mentions r) = [ScheduleUpdate (finalCard mentions r), FlushUpdates]
          \<and> finalCard mentions r =
              buildLarkCard
                ((buildRenderState True ((tracker r)\<lparr>status := Completed\<rparr>))
                 \<lparr>body := applyMentions mentions
                    (body (buildRenderState True ((tracker r)\<lparr>status := Completed\<rparr>)))\<rparr>)
          \<and> card_template (finalCard mentions r) = ''green''
          \<and> card_title (finalCard mentions r) = statusTitles Completed
          \<and> (case card_panel (finalCard mentions r) of
                None \<Rightarrow> True | Some (expanded, md) \<Rightarrow> \<not> expanded))"
proof (intro conjI impI)
  assume "messageId r = None"
  then show "snd (finalize mentions r) = []"
    using assms by (simp add: finalize_def renderCard_def wfRenderer_def Let_def)
next
  assume "\<not> truthy (messageId r) \<and> trim (assistantBuffer r) = [] \<and> status (tracker r) = Thinking"
  then show "finalize mentions r = (r, [])"
    by (simp add: finalize_def)
next
  assume a: "\<not> truthy (messageId r)
    \<and> (trim (assistantBuffer r) \<noteq> [] \<or> status (tracker r) \<noteq> Thinking)"
  then show "fst (finalize mentions r) = r\<lparr>tracker := (tracker r)\<lparr>status := Completed\<rparr>\<rparr>"
    by (auto simp: finalize_def setStatus_def Let_def)
  from a show "snd (finalize mentions r) = (if messageId r = None then [] else [FlushUpdates])"
    using assms by (auto simp: finalize_def renderCard_def wfRenderer_def Let_def)
next
  assume t: "truthy (messageId r)"
  then have u: "updater r" using assms by (auto simp: wfRenderer_def)
  show "fst (finalize mentions r) = r\<lparr>tracker := (tracker r)\<lparr>status := Completed\<rparr>\<rparr>"
    using t by (simp add: finalize_def setStatus_def Let_def)
  show "status (tracker (fst (finalize mentions r))) = Completed"
    using t by (simp add: finalize_def setStatus_def Let_def)
  show "snd (finalize mentions r) = [ScheduleUpdate (finalCard mentions r), FlushUpdates]"
    using t u by (simp add: finalize_def finalCard_def renderCard_def Let_def)
  show "finalCard mentions r =
              buildLarkCard
                ((buildRenderState True ((tracker r)\<lparr>status := Completed\<rparr>))
                 \<lparr>body := applyMentions mentions
                    (body (buildRenderState True ((tracker r)\<lparr>status := Completed\<rparr>)))\<rparr>)"
    by (simp add: finalCard_def renderCard_def setStatus_def Let_def)
qed (simp_all add: card_of_completed)

lemma ex_hello_deliver:
  "deliver fx now mentions created exHelloPayload newRenderer =
     deliverRender mentions created
       (newRenderer\<lparr>assistantBuffer := ''Hello'',
          tracker := newTracker\<lparr>draftAnswer := ''Hello''\<rparr>\<rparr>)"
  by (simp add: deliver_def ex_hello_extract deliverText_def ex_hello_split mergeStreamText_def
      setDraftAnswer_def setStatus_def newRenderer_def newTracker_def Let_def)

lemma exFailedCreate_eq:
  "exFailedCreate = newRenderer\<lparr>assistantBuffer := ''Hello'',
          tracker := newTracker\<lparr>draftAnswer := ''Hello''\<rparr>\<rparr>"
  unfolding exFailedCreate_def ex_hello_deliver
  by (simp add: deliverRender_def newRenderer_def Let_def)

lemma exCreated_eq:
  "exCreated = newRenderer\<lparr>assistantBuffer := ''Hello'',
          tracker := newTracker\<lparr>draftAnswer := ''Hello''\<rparr>,
          messageId := Some ''om_1'', updater := True\<rparr>"
  unfolding exCreated_def ex_hello_deliver
  by (simp add: deliverRender_def newRenderer_def Let_def)


lemma exEmptyId_eq:
  "exEmptyId = newRenderer\<lparr>assistantBuffer := ''Hello'',
          tracker := newTracker\<lparr>draftAnswer := ''Hello''\<rparr>,
          messageId := Some [], updater := True\<rparr>"
  unfolding exEmptyId_def ex_hello_deliver
  by (simp add: deliverRender_def newRenderer_def Let_def)

text \<open>
  The claim as stated fails: after a delivery whose message creation failed, no message
  exists and draft text exists, and \<open>finalize\<close> sets the status to \<open>Completed\<close>
  but schedules and publishes nothing.
\<close>

theorem finalize_actions_counterexample:
  "messageId exFailedCreate = None
   \<and> trim (assistantBuffer exFailedCreate) = ''Hello''
   \<and> status (tracker (fst (finalize None exFailedCreate))) = Completed
   \<and> snd (finalize None exFailedCreate) = []"
  by (simp add: exFailedCreate_eq finalize_def renderCard_def newRenderer_def newTracker_def
      setStatus_def ex_hello_extract Let_def)


theorem finalize_actions_witness:
  "wfRenderer newRenderer \<and> messageId newRenderer = None
   \<and> trim (assistantBuffer newRenderer) = [] \<and> status (tracker newRenderer) = Thinking
   \<and> finalize None newRenderer = (newRenderer, [])
   \<and> wfRenderer exFailedCreate \<and> \<not> truthy (messageId exFailedCreate)
   \<and> trim (assistantBuffer exFailedCreate) \<noteq> []
   \<and> status (tracker (fst (finalize None exFailedCreate))) = Completed
   \<and> snd (finalize None exFailedCreate) = []
   \<and> wfRenderer exEmptyId \<and> messageId exEmptyId = Some []
   \<and> trim (assistantBuffer exEmptyId) \<noteq> []
   \<and> status (tracker (fst (finalize None exEmptyId))) = Completed
   \<and> snd (finalize None exEmptyId) = [FlushUpdates]
   \<and> wfRenderer exCreated \<and> truthy (messageId exCreated)
   \<and> status (tracker (fst (finalize None exCreated))) = Completed
   \<and> snd (finalize None exCreated) = [ScheduleUpdate (finalCard None exCreated), FlushUpdates]
   \<and> card_template (finalCard None exCreated) = ''green''"
proof -
  have a: "wfRenderer newRenderer" by (rule wfRenderer_new)
  have b: "messageId newRenderer = None" "trim (assistantBuffer newRenderer) = []"
    "status (tracker newRenderer) = Thinking"
    by (simp_all add: newRenderer_def newTracker_def)
  have c: "wfRenderer exCreated"
    unfolding exCreated_def by (rule wfRenderer_deliver [OF wfRenderer_new])
  have d: "truthy (messageId exCreated)"
    by (simp add: exCreated_eq)
  have e: "wfRenderer exFailedCreate"
    unfolding exFailedCreate_def by (rule wfRenderer_deliver [OF wfRenderer_new])
  have f: "\<not> truthy (messageId exFailedCreate)" "messageId exFailedCreate = None"
    "trim (assistantBuffer exFailedCreate) \<noteq> []"
    by (simp_all add: exFailedCreate_eq newRenderer_def ex_hello_extract)
  have g: "wfRenderer exEmptyId"
    unfolding exEmptyId_def by (rule wfRenderer_deliver [OF wfRenderer_new])
  have h: "\<not> truthy (messageId exEmptyId)" "messageId exEmptyId = Some []"
    "trim (assistantBuffer exEmptyId) \<noteq> []"
    by (simp_all add: exEmptyId_eq newRenderer_def ex_hello_extract)
  from finalize_actions [OF a, of None] b
  have 1: "finalize None newRenderer = (newRenderer, [])"
    by simp
  from finalize_actions [OF e, of None] f
  have 2: "status (tracker (fst (finalize None exFailedCreate))) = Completed"
    "snd (finalize None exFailedCreate) = []"
    by simp_all
  from finalize_actions [OF g, of None] h
  have 3: "status (tracker (fst (finalize None exEmptyId))) = Completed"
    "snd (finalize None exEmptyId) = [FlushUpdates]"
    by simp_all
  from finalize_actions [OF c, of None] d
  have 4: "status (tracker (fst (finalize None exCreated))) = Completed"
    "snd (finalize None exCreated) = [ScheduleUpdate (finalCard None exCreated), FlushUpdates]"
    "card_template (finalCard None exCreated) = ''green''"
    by blast+
  from a b c d e f g h 1 2 3 4 show ?thesis
    by simp
qed


section \<open>Spacing and liveness of the update scheduler\<close>














lemma loopTurn_None:
  assumes "pending s = None"
  shows "loopTurn now s = loopEnd now s"
  using assms by (simp add: loopTurn_def)




















section \<open>The timeline of the run tracker\<close>

lemma findIndex_Some:
  "findIndex P xs = Some i \<Longrightarrow> i < length xs \<and> P (xs ! i)"
proof (induction xs arbitrary: i)
  case Nil
  then show ?case by simp
next
  case (Cons x xs)
  then show ?case by (auto split: if_splits)
qed

lemma findIndex_None: "findIndex P xs = None \<longleftrightarrow> (\<forall>x\<in>set xs. \<not> P x)"
  by (induction xs) auto

lemma filter_length_update:
  "i < length xs \<Longrightarrow> P (xs ! i) = P y \<Longrightarrow> length (filter P (xs[i := y])) = length (filter P xs)"
proof (induction xs arbitrary: i)
  case Nil
  then show ?case by simp
next
  case (Cons x xs)
  then show ?case by (cases i) auto
qed

lemma filter_le1_unique:
  "length (filter P xs) \<le> 1 \<Longrightarrow> i < length xs \<Longrightarrow> j < length xs \<Longrightarrow> P (xs ! i) \<Longrightarrow> P (xs ! j)
   \<Longrightarrow> i = j"
proof (induction xs arbitrary: i j)
  case Nil
  then show ?case by simp
next
  case (Cons x xs)
  show ?case
  proof (cases "P x")
    case True
    with Cons.prems(1) have none: "filter P xs = []" by simp
    have "i = 0"
    proof (rule ccontr)
      assume "i \<noteq> 0"
      then obtain i' where "i = Suc i'" by (cases i) auto
      with Cons.prems have "xs ! i' \<in> set xs" "P (xs ! i')" by auto
      with none show False by (auto simp: filter_empty_conv)
    qed
    moreover have "j = 0"
    proof (rule ccontr)
      assume "j \<noteq> 0"
      then obtain j' where "j = Suc j'" by (cases j) auto
      with Cons.prems have "xs ! j' \<in> set xs" "P (xs ! j')" by auto
      with none show False by (auto simp: filter_empty_conv)
    qed
    ultimately show ?thesis by simp
  next
    case False
    with Cons.prems obtain i' j' where ij: "i = Suc i'" "j = Suc j'"
      by (cases i; cases j) auto
    with Cons.prems False have "i' = j'"
      by (intro Cons.IH) auto
    with ij show ?thesis by simp
  qed
qed

lemma key_tool:
  "kind e = KToolCall \<Longrightarrow> toolUseId e = Some t \<Longrightarrow> t \<noteq> [] \<Longrightarrow> getTimelineEntryKey e = ''tool:'' @ t"
  by (simp add: getTimelineEntryKey_def)

lemma key_other:
  "\<not> (kind e = KToolCall \<and> truthy (toolUseId e)) \<Longrightarrow> getTimelineEntryKey e \<noteq> ''tool:'' @ t"
  by (cases "kind e") (auto simp: getTimelineEntryKey_def)

lemma appendEntry_cases:
  assumes "content e \<noteq> []"
  shows "(getTimelineEntryKey e \<notin> seen s
            \<and> appendEntry s e = s\<lparr>seen := insert (getTimelineEntryKey e) (seen s),
                                  timeline := timeline s @ [e]\<rparr>)
       \<or> (getTimelineEntryKey e \<in> seen s \<and> kind e = KToolCall \<and> truthy (toolUseId e)
            \<and> (\<exists>j. findIndex (\<lambda>item. toolUseId item = toolUseId e) (timeline s) = Some j
                  \<and> appendEntry s e = s\<lparr>timeline := (timeline s)[j := e]\<rparr>))
       \<or> (getTimelineEntryKey e \<in> seen s \<and> appendEntry s e = s)"
  using assms by (auto simp: appendEntry_def Let_def split: option.splits)

lemma idCount_append:
  "idCount t (xs @ [e]) = idCount t xs + (if toolUseId e = Some t then 1 else 0)"
  by (simp add: idCount_def)

lemma idCount_zero: "idCount t xs = 0 \<longleftrightarrow> (\<forall>e\<in>set xs. toolUseId e \<noteq> Some t)"
  by (auto simp: idCount_def filter_empty_conv)

lemma trackerInv_push:
  assumes inv: "trackerInv fx s" and wf: "wfEntry fx e" and new: "getTimelineEntryKey e \<notin> seen s"
  shows "trackerInv fx (s\<lparr>seen := insert (getTimelineEntryKey e) (seen s), timeline := timeline s @ [e]\<rparr>)"
proof (cases "kind e = KToolCall \<and> truthy (toolUseId e)")
  case True
  then obtain t where t: "toolUseId e = Some t" "t \<noteq> []"
    by (cases "toolUseId e") auto
  with True have key: "getTimelineEntryKey e = ''tool:'' @ t"
    by (simp add: key_tool)
  have none: "\<forall>x\<in>set (timeline s). toolUseId x \<noteq> Some t"
    using inv new t key by (auto simp: trackerInv_def)
  then have z: "idCount t (timeline s) = 0" by (simp add: idCount_zero)
  show ?thesis
    unfolding trackerInv_def
  proof (intro conjI)
    show "\<forall>x\<in>set (timeline (s\<lparr>seen := insert (getTimelineEntryKey e) (seen s), timeline := timeline s @ [e]\<rparr>)). wfEntry fx x"
      using inv wf by (auto simp: trackerInv_def)
    show "\<forall>x\<in>set (timeline (s\<lparr>seen := insert (getTimelineEntryKey e) (seen s), timeline := timeline s @ [e]\<rparr>)).
        \<forall>u. toolUseId x = Some u \<and> u \<noteq> [] \<longrightarrow>
          ''tool:'' @ u \<in> seen (s\<lparr>seen := insert (getTimelineEntryKey e) (seen s), timeline := timeline s @ [e]\<rparr>)"
      using inv t key by (auto simp: trackerInv_def)
    show "\<forall>u. u \<noteq> [] \<and> ''tool:'' @ u \<in> seen (s\<lparr>seen := insert (getTimelineEntryKey e) (seen s), timeline := timeline s @ [e]\<rparr>) \<longrightarrow>
        (\<exists>x\<in>set (timeline (s\<lparr>seen := insert (getTimelineEntryKey e) (seen s), timeline := timeline s @ [e]\<rparr>)). toolUseId x = Some u)"
      using inv t key by (auto simp: trackerInv_def)
    show "\<forall>u. u \<noteq> [] \<longrightarrow>
        idCount u (timeline (s\<lparr>seen := insert (getTimelineEntryKey e) (seen s), timeline := timeline s @ [e]\<rparr>)) \<le> 1"
      using inv t z by (auto simp: trackerInv_def idCount_append)
  qed
next
  case False
  then have key: "getTimelineEntryKey e \<noteq> ''tool:'' @ u" for u
    by (rule key_other)
  have key': "''tool:'' @ u \<noteq> getTimelineEntryKey e" for u
    using key [of u] by simp
  have noid: "toolUseId e \<noteq> Some u" if "u \<noteq> []" for u
    using False wf that by (cases "toolUseId e") (auto simp: wfEntry_def)
  show ?thesis
    unfolding trackerInv_def
  proof (intro conjI)
    show "\<forall>x\<in>set (timeline (s\<lparr>seen := insert (getTimelineEntryKey e) (seen s), timeline := timeline s @ [e]\<rparr>)). wfEntry fx x"
      using inv wf by (auto simp: trackerInv_def)
    show "\<forall>x\<in>set (timeline (s\<lparr>seen := insert (getTimelineEntryKey e) (seen s), timeline := timeline s @ [e]\<rparr>)).
        \<forall>u. toolUseId x = Some u \<and> u \<noteq> [] \<longrightarrow>
          ''tool:'' @ u \<in> seen (s\<lparr>seen := insert (getTimelineEntryKey e) (seen s), timeline := timeline s @ [e]\<rparr>)"
      using inv noid by (auto simp: trackerInv_def)
    show "\<forall>u. u \<noteq> [] \<and> ''tool:'' @ u \<in> seen (s\<lparr>seen := insert (getTimelineEntryKey e) (seen s), timeline := timeline s @ [e]\<rparr>) \<longrightarrow>
        (\<exists>x\<in>set (timeline (s\<lparr>seen := insert (getTimelineEntryKey e) (seen s), timeline := timeline s @ [e]\<rparr>)). toolUseId x = Some u)"
      using inv key key' by (auto simp: trackerInv_def)
    show "\<forall>u. u \<noteq> [] \<longrightarrow>
        idCount u (timeline (s\<lparr>seen := insert (getTimelineEntryKey e) (seen s), timeline := timeline s @ [e]\<rparr>)) \<le> 1"
      using inv noid by (auto simp: trackerInv_def idCount_append)
  qed
qed

lemma idCount_update:
  "j < length xs \<Longrightarrow> toolUseId (xs ! j) = toolUseId y \<Longrightarrow> idCount u (xs[j := y]) = idCount u xs"
  unfolding idCount_def by (rule filter_length_update) auto

lemma trackerInv_replace:
  assumes inv: "trackerInv fx s" and wf: "wfEntry fx e"
    and j: "j < length (timeline s)" "toolUseId (timeline s ! j) = toolUseId e"
  shows "trackerInv fx (s\<lparr>timeline := (timeline s)[j := e]\<rparr>)"
  unfolding trackerInv_def
proof (intro conjI)
  let ?tl = "(timeline s)[j := e]"
  have sub: "set ?tl \<subseteq> insert e (set (timeline s))"
    by (rule set_update_subset_insert)
  have old: "timeline s ! j \<in> set (timeline s)"
    using j by simp
  show "\<forall>x\<in>set (timeline (s\<lparr>timeline := ?tl\<rparr>)). wfEntry fx x"
    using inv wf sub by (auto simp: trackerInv_def)
  show "\<forall>x\<in>set (timeline (s\<lparr>timeline := ?tl\<rparr>)).
      \<forall>u. toolUseId x = Some u \<and> u \<noteq> [] \<longrightarrow> ''tool:'' @ u \<in> seen (s\<lparr>timeline := ?tl\<rparr>)"
  proof (intro ballI allI impI)
    fix x u
    assume x: "x \<in> set (timeline (s\<lparr>timeline := ?tl\<rparr>))" and u: "toolUseId x = Some u \<and> u \<noteq> []"
    from x sub have "x = e \<or> x \<in> set (timeline s)" by auto
    then have "\<exists>y\<in>set (timeline s). toolUseId y = Some u"
      using u j(2) old by (metis)
    then show "''tool:'' @ u \<in> seen (s\<lparr>timeline := ?tl\<rparr>)"
      using inv u by (auto simp: trackerInv_def)
  qed
  show "\<forall>u. u \<noteq> [] \<and> ''tool:'' @ u \<in> seen (s\<lparr>timeline := ?tl\<rparr>) \<longrightarrow>
      (\<exists>x\<in>set (timeline (s\<lparr>timeline := ?tl\<rparr>)). toolUseId x = Some u)"
  proof (intro allI impI)
    fix u
    assume u: "u \<noteq> [] \<and> ''tool:'' @ u \<in> seen (s\<lparr>timeline := ?tl\<rparr>)"
    then obtain y where y: "y \<in> set (timeline s)" "toolUseId y = Some u"
      using inv by (auto simp: trackerInv_def)
    then obtain k where k: "k < length (timeline s)" "timeline s ! k = y"
      by (auto simp: in_set_conv_nth)
    show "\<exists>x\<in>set (timeline (s\<lparr>timeline := ?tl\<rparr>)). toolUseId x = Some u"
    proof (cases "k = j")
      case True
      then have "toolUseId e = Some u" using j(2) k y by simp
      moreover have "e \<in> set ?tl" using j(1) by (simp add: set_update_memI)
      ultimately show ?thesis by auto
    next
      case False
      then have "?tl ! k = y" using k by simp
      moreover have "k < length ?tl" using k by simp
      ultimately have "y \<in> set ?tl" by (metis nth_mem)
      with y show ?thesis by auto
    qed
  qed
  show "\<forall>u. u \<noteq> [] \<longrightarrow> idCount u (timeline (s\<lparr>timeline := ?tl\<rparr>)) \<le> 1"
    using inv j by (auto simp: trackerInv_def idCount_update)
qed

lemma trackerInv_appendEntry:
  assumes "trackerInv fx s" "wfEntry fx e"
  shows "trackerInv fx (appendEntry s e)"
proof -
  have c: "content e \<noteq> []" using assms(2) by (simp add: wfEntry_def)
  from appendEntry_cases [OF c, of s] show ?thesis
  proof (elim disjE conjE exE)
    assume "getTimelineEntryKey e \<notin> seen s"
      and "appendEntry s e = s\<lparr>seen := insert (getTimelineEntryKey e) (seen s),
                                  timeline := timeline s @ [e]\<rparr>"
    then show ?thesis using assms by (simp add: trackerInv_push)
  next
    fix j
    assume f: "findIndex (\<lambda>item. toolUseId item = toolUseId e) (timeline s) = Some j"
      and eq: "appendEntry s e = s\<lparr>timeline := (timeline s)[j := e]\<rparr>"
    from findIndex_Some [OF f] show ?thesis
      unfolding eq using assms by (intro trackerInv_replace) auto
  next
    assume "appendEntry s e = s"
    then show ?thesis using assms by simp
  qed
qed

lemma trackerInv_foldl:
  assumes "trackerInv fx s" "\<forall>e\<in>set es. wfEntry fx e"
  shows "trackerInv fx (foldl appendEntry s es)"
  using assms by (induction es arbitrary: s) (auto intro: trackerInv_appendEntry)

lemma buildToolCallContent_nonempty: "buildToolCallContent fx name d \<noteq> []"
  by (cases d) (simp_all add: buildToolCallContent_def formatToolCall_nonempty)

lemma collectorInv_snoc:
  assumes inv: "collectorInv fx c" and wf: "wfEntry fx e"
    and mp: "\<And>u m. mp u = Some m \<Longrightarrow>
               col_toolEntryMap c u = Some m
               \<or> (u \<noteq> [] \<and> em_index m = length (col_timeline c) \<and> toolUseId e = Some u
                   \<and> kind e = KToolCall \<and> toolName e = Some (em_toolName m))"
  shows "collectorInv fx (c\<lparr>col_toolEntryMap := mp, col_timeline := col_timeline c @ [e]\<rparr>)"
proof -
  have a: "\<forall>x\<in>set (col_timeline c @ [e]). wfEntry fx x"
    using inv wf by (auto simp: collectorInv_def)
  have b: "u \<noteq> [] \<and> em_index m < length (col_timeline c @ [e])
           \<and> toolUseId ((col_timeline c @ [e]) ! em_index m) = Some u
           \<and> kind ((col_timeline c @ [e]) ! em_index m) = KToolCall
           \<and> toolName ((col_timeline c @ [e]) ! em_index m) = Some (em_toolName m)"
    if "mp u = Some m" for u m
  proof -
    from mp [OF that] show ?thesis
    proof
      assume "col_toolEntryMap c u = Some m"
      with inv have "u \<noteq> []" "em_index m < length (col_timeline c)"
        "toolUseId (col_timeline c ! em_index m) = Some u"
        "kind (col_timeline c ! em_index m) = KToolCall"
        "toolName (col_timeline c ! em_index m) = Some (em_toolName m)"
        by (auto simp: collectorInv_def)
      then show ?thesis by (simp add: nth_append)
    next
      assume "u \<noteq> [] \<and> em_index m = length (col_timeline c) \<and> toolUseId e = Some u
                   \<and> kind e = KToolCall \<and> toolName e = Some (em_toolName m)"
      then show ?thesis by simp
    qed
  qed
  show ?thesis unfolding collectorInv_def using a b by simp
qed

lemma collectorInv_content:
  assumes "collectorInv fx c"
  shows "collectorInv fx (collectContent fx c p)"
proof (cases p)
  case (TextPart str)
  let ?e = "\<lparr>kind = KText, content = trim str, toolUseId = None, toolName = None,
              durationMs = None\<rparr>"
  show ?thesis
  proof (cases "normalizeWhitespace str = []")
    case True
    then show ?thesis using assms TextPart by simp
  next
    case False
    then have wf: "wfEntry fx ?e"
      by (simp add: wfEntry_def normalizeWhitespace_eq_Nil_iff)
    have "collectorInv fx (c\<lparr>col_toolEntryMap := col_toolEntryMap c, col_timeline := col_timeline c @ [?e]\<rparr>)"
      using assms wf by (rule collectorInv_snoc) simp
    then have "collectorInv fx (c\<lparr>col_textParts := col_textParts c @ [trim str],
                                col_timeline := col_timeline c @ [?e]\<rparr>)"
      by (simp add: collectorInv_def)
    then show ?thesis using False TextPart by simp
  qed
next
  case (ThinkingPart str)
  let ?e = "\<lparr>kind = KThinking, content = trim str, toolUseId = None, toolName = None,
              durationMs = None\<rparr>"
  show ?thesis
  proof (cases "normalizeWhitespace str = []")
    case True
    then show ?thesis using assms ThinkingPart by simp
  next
    case False
    then have wf: "wfEntry fx ?e"
      by (simp add: wfEntry_def normalizeWhitespace_eq_Nil_iff)
    have "collectorInv fx (c\<lparr>col_toolEntryMap := col_toolEntryMap c, col_timeline := col_timeline c @ [?e]\<rparr>)"
      using assms wf by (rule collectorInv_snoc) simp
    then show ?thesis using False ThinkingPart by simp
  qed
next
  case (ToolCallPart name uid st)
  let ?n = "if name \<noteq> [] then name else ''unknown-tool''"
  let ?e = "\<lparr>kind = KToolCall, content = buildToolCallContent fx ?n None,
                   toolUseId = uid, toolName = Some ?n, durationMs = None\<rparr>"
  let ?m = "case uid of
                 None \<Rightarrow> col_toolEntryMap c
               | Some t \<Rightarrow>
                   if t \<noteq> [] then
                     (col_toolEntryMap c)(t \<mapsto>
                        \<lparr>em_index = length (col_timeline c), em_toolName = ?n,
                          em_startedAt = st\<rparr>)
                   else col_toolEntryMap c"
  have wf: "wfEntry fx ?e"
    by (simp add: wfEntry_def buildToolCallContent_nonempty)
  have "collectorInv fx (c\<lparr>col_toolEntryMap := ?m, col_timeline := col_timeline c @ [?e]\<rparr>)"
    using assms wf
  proof (rule collectorInv_snoc)
    fix u m
    assume "?m u = Some m"
    then show "col_toolEntryMap c u = Some m
               \<or> (u \<noteq> [] \<and> em_index m = length (col_timeline c) \<and> toolUseId ?e = Some u
                   \<and> kind ?e = KToolCall \<and> toolName ?e = Some (em_toolName m))"
      by (cases uid) (auto split: if_splits)
  qed
  then show ?thesis using ToolCallPart by (simp add: Let_def)
qed

lemma collectResult_cases:
  "collectResult fx now c part = c
   \<or> (\<exists>u m. tr_toolUseId part = Some u \<and> u \<noteq> [] \<and> col_toolEntryMap c u = Some m
        \<and> em_index m < length (col_timeline c)
        \<and> collectResult fx now c part =
            c\<lparr>col_timeline := (col_timeline c)[em_index m :=
                 (col_timeline c ! em_index m)
                   \<lparr>durationMs := resolveDurationMs now (tr_durationMs part) (em_startedAt m)
                                    (tr_completedAt part),
                    content := buildToolCallContent fx (em_toolName m)
                                 (resolveDurationMs now (tr_durationMs part) (em_startedAt m)
                                    (tr_completedAt part))\<rparr>]\<rparr>)"
  by (auto simp: collectResult_def Let_def split: option.splits)

lemma collectorInv_result:
  assumes "collectorInv fx c"
  shows "collectorInv fx (collectResult fx now c part)"
proof -
  from collectResult_cases [of fx now c part] show ?thesis
  proof (elim disjE exE conjE)
    assume "collectResult fx now c part = c"
    then show ?thesis using assms by simp
  next
    fix u and m :: ToolEntryMeta
    let ?d = "resolveDurationMs now (tr_durationMs part) (em_startedAt m) (tr_completedAt part)"
    let ?e = "(col_timeline c ! em_index m)\<lparr>durationMs := ?d,
                    content := buildToolCallContent fx (em_toolName m) ?d\<rparr>"
    assume u: "u \<noteq> []" and m: "col_toolEntryMap c u = Some m"
      and i: "em_index m < length (col_timeline c)"
      and eq: "collectResult fx now c part = c\<lparr>col_timeline := (col_timeline c)[em_index m := ?e]\<rparr>"
    from assms m have old: "toolUseId (col_timeline c ! em_index m) = Some u"
      "kind (col_timeline c ! em_index m) = KToolCall"
      "toolName (col_timeline c ! em_index m) = Some (em_toolName m)"
      by (auto simp: collectorInv_def)
    have wf: "wfEntry fx ?e"
      using old u by (simp add: wfEntry_def buildToolCallContent_nonempty)
    have sub: "set ((col_timeline c)[em_index m := ?e]) \<subseteq> insert ?e (set (col_timeline c))"
      by (rule set_update_subset_insert)
    have a: "\<forall>x\<in>set ((col_timeline c)[em_index m := ?e]). wfEntry fx x"
      using assms wf sub by (auto simp: collectorInv_def)
    have b: "\<forall>v n. col_toolEntryMap c v = Some n \<longrightarrow>
           v \<noteq> [] \<and> em_index n < length ((col_timeline c)[em_index m := ?e])
           \<and> toolUseId ((col_timeline c)[em_index m := ?e] ! em_index n) = Some v
           \<and> kind ((col_timeline c)[em_index m := ?e] ! em_index n) = KToolCall
           \<and> toolName ((col_timeline c)[em_index m := ?e] ! em_index n) = Some (em_toolName n)"
    proof (intro allI impI)
      fix v n
      assume n: "col_toolEntryMap c v = Some n"
      with assms have o: "v \<noteq> []" "em_index n < length (col_timeline c)"
        "toolUseId (col_timeline c ! em_index n) = Some v"
        "kind (col_timeline c ! em_index n) = KToolCall"
        "toolName (col_timeline c ! em_index n) = Some (em_toolName n)"
        by (auto simp: collectorInv_def)
      show "v \<noteq> [] \<and> em_index n < length ((col_timeline c)[em_index m := ?e])
           \<and> toolUseId ((col_timeline c)[em_index m := ?e] ! em_index n) = Some v
           \<and> kind ((col_timeline c)[em_index m := ?e] ! em_index n) = KToolCall
           \<and> toolName ((col_timeline c)[em_index m := ?e] ! em_index n) = Some (em_toolName n)"
        using o by (cases "em_index n = em_index m") (simp_all add: i)
    qed
    show ?thesis unfolding eq collectorInv_def using a b by simp
  qed
qed

lemma collectorInv_message:
  assumes "collectorInv fx c"
  shows "collectorInv fx (collectMessage fx now c m)"
proof (cases m)
  case (AssistantMessage parts)
  have "collectorInv fx (foldl (collectContent fx) c parts)"
    using assms by (induction parts arbitrary: c) (auto intro: collectorInv_content)
  then show ?thesis using AssistantMessage by simp
next
  case (ToolMessage uid parts)
  have "collectorInv fx (foldl (collectResult fx now) c parts)"
    using assms by (induction parts arbitrary: c) (auto intro: collectorInv_result)
  then show ?thesis using ToolMessage by simp
next
  case (OtherItem r)
  then show ?thesis using assms by simp
qed

lemma collectorInv_messages:
  assumes "collectorInv fx c"
  shows "collectorInv fx (foldl (collectMessage fx now) c ms)"
  using assms by (induction ms arbitrary: c) (auto intro: collectorInv_message)

lemma collectorInv_empty: "collectorInv fx emptyCollector"
  by (simp add: collectorInv_def emptyCollector_def)

lemma chunks_wf: "\<forall>e\<in>set (chunk_timeline (collectDisplayChunks fx now ms)). wfEntry fx e"
  using collectorInv_messages [OF collectorInv_empty, of fx now ms]
  by (simp add: collectDisplayChunks_def collectorInv_def Let_def)

lemma trackerInv_appendMessages:
  assumes "trackerInv fx s"
  shows "trackerInv fx (appendMessages fx now ms s)"
proof -
  have "trackerInv fx (foldl appendEntry s (chunk_timeline (collectDisplayChunks fx now ms)))"
    using assms chunks_wf by (rule trackerInv_foldl)
  then show ?thesis
    by (simp add: appendMessages_def Let_def trackerInv_def)
qed

lemma trackerInv_new: "trackerInv fx newTracker"
  by (simp add: trackerInv_def newTracker_def idCount_def)

lemma trackerInv_applyOp:
  assumes "trackerInv fx s"
  shows "trackerInv fx (applyOp fx s op)"
proof (cases op)
  case (AppendMessages now ms)
  then show ?thesis using assms by (simp add: trackerInv_appendMessages)
next
  case (SetStatus st)
  then show ?thesis using assms by (simp add: setStatus_def trackerInv_def)
next
  case (SetDraftAnswer a)
  then show ?thesis using assms by (simp add: setDraftAnswer_def trackerInv_def)
next
  case Reset
  then show ?thesis by (simp add: reset_def trackerInv_def idCount_def)
qed

lemma trackerInv_runOps: "trackerInv fx (runOps fx ops)"
proof -
  have "trackerInv fx (foldl (applyOp fx) s ops)" if "trackerInv fx s" for s
    using that by (induction ops arbitrary: s) (auto intro: trackerInv_applyOp)
  then show ?thesis by (simp add: runOps_def trackerInv_new)
qed

lemma appendEntry_tool_seen:
  assumes "content e \<noteq> []" "kind e = KToolCall" "truthy (toolUseId e)"
    "getTimelineEntryKey e \<in> seen s"
    "findIndex (\<lambda>item. toolUseId item = toolUseId e) (timeline s) = Some j"
  shows "appendEntry s e = s\<lparr>timeline := (timeline s)[j := e]\<rparr>"
  using assms by (simp add: appendEntry_def Let_def)

lemma appendEntry_other_seen:
  assumes "getTimelineEntryKey e \<in> seen s" "\<not> (kind e = KToolCall \<and> truthy (toolUseId e))"
  shows "appendEntry s e = s"
  using assms by (auto simp: appendEntry_def Let_def)

lemma appendEntry_new:
  assumes "content e \<noteq> []" "getTimelineEntryKey e \<notin> seen s"
  shows "appendEntry s e = s\<lparr>seen := insert (getTimelineEntryKey e) (seen s),
                              timeline := timeline s @ [e]\<rparr>"
  using assms by (simp add: appendEntry_def Let_def)

lemma findIndex_at:
  assumes inv: "trackerInv fx s" and i: "i < length (timeline s)"
    "toolUseId (timeline s ! i) = Some t" and t: "t \<noteq> []"
  shows "findIndex (\<lambda>item. toolUseId item = Some t) (timeline s) = Some i"
proof (cases "findIndex (\<lambda>item. toolUseId item = Some t) (timeline s)")
  case None
  then have "\<forall>x\<in>set (timeline s). toolUseId x \<noteq> Some t"
    by (simp add: findIndex_None)
  moreover have "timeline s ! i \<in> set (timeline s)" using i by simp
  ultimately show ?thesis using i by auto
next
  case (Some j)
  from findIndex_Some [OF Some] have j: "j < length (timeline s)" "toolUseId (timeline s ! j) = Some t"
    by auto
  have "length (filter (\<lambda>e. toolUseId e = Some t) (timeline s)) \<le> 1"
    using inv t by (auto simp: trackerInv_def idCount_def)
  then have "i = j"
    using filter_le1_unique [of "\<lambda>e. toolUseId e = Some t" "timeline s" i j] i j by simp
  with Some show ?thesis by simp
qed

lemma appendEntry_at:
  assumes inv: "trackerInv fx s" and wf: "wfEntry fx e"
    and i: "i < length (timeline s)" "toolUseId (timeline s ! i) = Some t" and t: "t \<noteq> []"
  shows "length (timeline s) \<le> length (timeline (appendEntry s e))
     \<and> (toolUseId e = Some t \<longrightarrow>
           timeline (appendEntry s e) ! i = e
           \<and> length (timeline (appendEntry s e)) = length (timeline s))
     \<and> (toolUseId e \<noteq> Some t \<longrightarrow> timeline (appendEntry s e) ! i = timeline s ! i)"
proof (cases "toolUseId e = Some t")
  case True
  have c: "content e \<noteq> []" and k: "kind e = KToolCall"
    using wf True by (auto simp: wfEntry_def)
  have tr: "truthy (toolUseId e)" using True t by simp
  have key: "getTimelineEntryKey e = ''tool:'' @ t"
    using k True t by (rule key_tool)
  have "timeline s ! i \<in> set (timeline s)" using i by simp
  then have seen: "getTimelineEntryKey e \<in> seen s"
    using inv i t key by (auto simp: trackerInv_def)
  have "findIndex (\<lambda>item. toolUseId item = toolUseId e) (timeline s) = Some i"
    unfolding True using inv i t by (rule findIndex_at)
  with c k tr seen have "appendEntry s e = s\<lparr>timeline := (timeline s)[i := e]\<rparr>"
    by (rule appendEntry_tool_seen)
  then show ?thesis using True i by simp
next
  case False
  have c: "content e \<noteq> []" using wf by (simp add: wfEntry_def)
  show ?thesis
  proof (cases "getTimelineEntryKey e \<in> seen s")
    case notseen: False
    with c have "appendEntry s e = s\<lparr>seen := insert (getTimelineEntryKey e) (seen s),
                              timeline := timeline s @ [e]\<rparr>"
      by (rule appendEntry_new)
    then show ?thesis using False i by (simp add: nth_append)
  next
    case seen: True
    show ?thesis
    proof (cases "kind e = KToolCall \<and> truthy (toolUseId e)")
      case other: False
      with seen have "appendEntry s e = s" by (rule appendEntry_other_seen)
      then show ?thesis using False by simp
    next
      case tool: True
      show ?thesis
      proof (cases "findIndex (\<lambda>item. toolUseId item = toolUseId e) (timeline s)")
        case None
        then have "appendEntry s e = s"
          using seen by (simp add: appendEntry_def Let_def)
        then show ?thesis using False by simp
      next
        case (Some j)
        from findIndex_Some [OF Some] have j: "j < length (timeline s)"
          "toolUseId (timeline s ! j) = toolUseId e" by auto
        with False i have "j \<noteq> i" by auto
        moreover have "appendEntry s e = s\<lparr>timeline := (timeline s)[j := e]\<rparr>"
          using c tool seen Some by (intro appendEntry_tool_seen) auto
        ultimately show ?thesis using False by simp
      qed
    qed
  qed
qed

lemma foldl_appendEntry_at:
  assumes "trackerInv fx s" and "\<forall>e\<in>set es. wfEntry fx e"
    and "i < length (timeline s)" "toolUseId (timeline s ! i) = Some t" and "t \<noteq> []"
    and "\<forall>e\<in>set es. toolUseId e = Some t \<longrightarrow> isFresh e"
  shows "i < length (timeline (foldl appendEntry s es))
     \<and> toolUseId (timeline (foldl appendEntry s es) ! i) = Some t
     \<and> (isFresh (timeline s ! i) \<or> (\<exists>e\<in>set es. toolUseId e = Some t)
          \<longrightarrow> isFresh (timeline (foldl appendEntry s es) ! i))"
  using assms
proof (induction es arbitrary: s)
  case Nil
  then show ?case by simp
next
  case (Cons e es)
  let ?s1 = "appendEntry s e"
  have wf: "wfEntry fx e" using Cons.prems(2) by simp
  have inv1: "trackerInv fx ?s1" using Cons.prems(1) wf by (rule trackerInv_appendEntry)
  from appendEntry_at [OF Cons.prems(1) wf Cons.prems(3,4,5)]
  have at: "length (timeline s) \<le> length (timeline ?s1)"
    "toolUseId e = Some t \<Longrightarrow> timeline ?s1 ! i = e"
    "toolUseId e \<noteq> Some t \<Longrightarrow> timeline ?s1 ! i = timeline s ! i"
    by auto
  have i1: "i < length (timeline ?s1)" using at(1) Cons.prems(3) by simp
  have id1: "toolUseId (timeline ?s1 ! i) = Some t"
    using at(2,3) Cons.prems(4) by (cases "toolUseId e = Some t") auto
  have fresh1: "isFresh (timeline s ! i) \<or> toolUseId e = Some t \<Longrightarrow> isFresh (timeline ?s1 ! i)"
    using at(2,3) Cons.prems(6) by (cases "toolUseId e = Some t") auto
  from Cons.IH [OF inv1 _ i1 id1 Cons.prems(5)] Cons.prems(2,6)
  have ih: "i < length (timeline (foldl appendEntry ?s1 es))
     \<and> toolUseId (timeline (foldl appendEntry ?s1 es) ! i) = Some t
     \<and> (isFresh (timeline ?s1 ! i) \<or> (\<exists>e\<in>set es. toolUseId e = Some t)
          \<longrightarrow> isFresh (timeline (foldl appendEntry ?s1 es) ! i))"
    by simp
  then show ?case using fresh1 by auto
qed

lemma freshFor_snoc:
  "freshFor t (xs @ [e]) \<longleftrightarrow> freshFor t xs \<and> (toolUseId e = Some t \<longrightarrow> isFresh e)"
  by (auto simp: freshFor_def)

lemma freshFor_content:
  assumes "freshFor t (col_timeline c)"
  shows "freshFor t (col_timeline (collectContent fx c p))"
proof (cases p)
  case (TextPart str)
  then show ?thesis using assms by (simp add: freshFor_snoc)
next
  case (ThinkingPart str)
  then show ?thesis using assms by (simp add: freshFor_snoc)
next
  case (ToolCallPart name uid st)
  then show ?thesis using assms
    by (simp add: freshFor_snoc Let_def isFresh_def buildToolCallContent_def)
qed

lemma freshFor_result:
  assumes "collectorInv fx c" "freshFor t (col_timeline c)" "tr_toolUseId part \<noteq> Some t"
  shows "freshFor t (col_timeline (collectResult fx now c part))"
proof -
  from collectResult_cases [of fx now c part] show ?thesis
  proof (elim disjE exE conjE)
    assume "collectResult fx now c part = c"
    then show ?thesis using assms by simp
  next
    fix u and m :: ToolEntryMeta
    let ?d = "resolveDurationMs now (tr_durationMs part) (em_startedAt m) (tr_completedAt part)"
    let ?e = "(col_timeline c ! em_index m)\<lparr>durationMs := ?d,
                    content := buildToolCallContent fx (em_toolName m) ?d\<rparr>"
    assume u: "tr_toolUseId part = Some u" and m: "col_toolEntryMap c u = Some m"
      and eq: "collectResult fx now c part = c\<lparr>col_timeline := (col_timeline c)[em_index m := ?e]\<rparr>"
    from assms(1) m have "toolUseId (col_timeline c ! em_index m) = Some u"
      by (auto simp: collectorInv_def)
    then have "toolUseId ?e \<noteq> Some t" using u assms(3) by auto
    moreover have "set ((col_timeline c)[em_index m := ?e]) \<subseteq> insert ?e (set (col_timeline c))"
      by (rule set_update_subset_insert)
    ultimately show ?thesis unfolding eq using assms(2) by (auto simp: freshFor_def)
  qed
qed

lemma freshFor_message:
  assumes "collectorInv fx c" "freshFor t (col_timeline c)" "Some t \<notin> set (resultIds m)"
  shows "freshFor t (col_timeline (collectMessage fx now c m))"
proof (cases m)
  case (AssistantMessage parts)
  have "freshFor t (col_timeline (foldl (collectContent fx) c parts))"
    using assms(2) by (induction parts arbitrary: c) (auto intro: freshFor_content)
  then show ?thesis using AssistantMessage by simp
next
  case (ToolMessage uid parts)
  have "freshFor t (col_timeline (foldl (collectResult fx now) c parts))"
    if "Some t \<notin> tr_toolUseId ` set parts"
    using assms(1,2) that
  proof (induction parts arbitrary: c)
    case Nil
    then show ?case by simp
  next
    case (Cons part parts)
    have "collectorInv fx (collectResult fx now c part)"
      using Cons.prems(1) by (rule collectorInv_result)
    moreover have "freshFor t (col_timeline (collectResult fx now c part))"
      using Cons.prems by (intro freshFor_result) auto
    ultimately show ?case using Cons.IH Cons.prems(3) by simp
  qed
  then show ?thesis using ToolMessage assms(3) by simp
next
  case (OtherItem r)
  then show ?thesis using assms by simp
qed

lemma freshFor_messages:
  assumes "collectorInv fx c" "freshFor t (col_timeline c)" "Some t \<notin> set (batchResultIds ms)"
  shows "freshFor t (col_timeline (foldl (collectMessage fx now) c ms))"
  using assms
proof (induction ms arbitrary: c)
  case Nil
  then show ?case by simp
next
  case (Cons m ms)
  have "collectorInv fx (collectMessage fx now c m)"
    using Cons.prems(1) by (rule collectorInv_message)
  moreover have "freshFor t (col_timeline (collectMessage fx now c m))"
    using Cons.prems by (intro freshFor_message) (auto simp: batchResultIds_def)
  moreover have "Some t \<notin> set (batchResultIds ms)"
    using Cons.prems(3) by (simp add: batchResultIds_def)
  ultimately show ?case using Cons.IH by simp
qed

lemma chunks_fresh:
  assumes "Some t \<notin> set (batchResultIds ms)"
  shows "freshFor t (chunk_timeline (collectDisplayChunks fx now ms))"
  using freshFor_messages [OF collectorInv_empty _ assms, of fx now]
  by (simp add: collectDisplayChunks_def Let_def freshFor_def emptyCollector_def)

lemma ids_content:
  "toolUseId ` set (col_timeline c) \<union> set (partCallIds p)
     \<subseteq> toolUseId ` set (col_timeline (collectContent fx c p))"
  by (cases p) (auto simp: Let_def)

lemma ids_result:
  "toolUseId ` set (col_timeline (collectResult fx now c part)) = toolUseId ` set (col_timeline c)"
proof -
  have "map toolUseId (col_timeline (collectResult fx now c part)) = map toolUseId (col_timeline c)"
    using collectResult_cases [of fx now c part]
    by (auto simp: map_update list_update_same_conv)
  then show ?thesis by (metis set_map)
qed

lemma ids_message:
  "toolUseId ` set (col_timeline c) \<union> set (concat (map partCallIds (assistantParts m)))
     \<subseteq> toolUseId ` set (col_timeline (collectMessage fx now c m))"
proof (cases m)
  case (AssistantMessage parts)
  have "toolUseId ` set (col_timeline c) \<union> set (concat (map partCallIds parts))
     \<subseteq> toolUseId ` set (col_timeline (foldl (collectContent fx) c parts))"
  proof (induction parts arbitrary: c)
    case Nil
    then show ?case by simp
  next
    case (Cons p parts)
    from ids_content [of c p fx] Cons.IH [of "collectContent fx c p"]
    have "toolUseId ` set (col_timeline c)
        \<union> (set (partCallIds p) \<union> set (concat (map partCallIds parts)))
      \<subseteq> toolUseId ` set (col_timeline (foldl (collectContent fx) (collectContent fx c p) parts))"
      by blast
    then show ?case by simp
  qed
  then show ?thesis using AssistantMessage by simp
next
  case (ToolMessage uid parts)
  have "toolUseId ` set (col_timeline (foldl (collectResult fx now) c parts))
      = toolUseId ` set (col_timeline c)"
    by (induction parts arbitrary: c) (simp_all add: ids_result)
  then show ?thesis using ToolMessage by simp
next
  case (OtherItem r)
  then show ?thesis by simp
qed

lemma ids_messages:
  "toolUseId ` set (col_timeline c) \<union> set (batchCallIds ms)
     \<subseteq> toolUseId ` set (col_timeline (foldl (collectMessage fx now) c ms))"
proof (induction ms arbitrary: c)
  case Nil
  then show ?case by (simp add: batchCallIds_def)
next
  case (Cons m ms)
  from ids_message [of c m fx now] Cons.IH [of "collectMessage fx now c m"]
  have "toolUseId ` set (col_timeline c)
      \<union> (set (concat (map partCallIds (assistantParts m))) \<union> set (batchCallIds ms))
    \<subseteq> toolUseId ` set (col_timeline (foldl (collectMessage fx now) (collectMessage fx now c m) ms))"
    by blast
  then show ?case by (simp add: batchCallIds_def)
qed

lemma chunks_has_call:
  assumes "Some t \<in> set (batchCallIds ms)"
  shows "\<exists>e\<in>set (chunk_timeline (collectDisplayChunks fx now ms)). toolUseId e = Some t"
proof -
  from ids_messages [of emptyCollector ms fx now] assms
  have "Some t \<in> toolUseId ` set (col_timeline (foldl (collectMessage fx now) emptyCollector ms))"
    by auto
  then show ?thesis by (auto simp: collectDisplayChunks_def Let_def)
qed

lemma idCount_pos:
  assumes "i < length xs" "toolUseId (xs ! i) = Some t"
  shows "1 \<le> idCount t xs"
proof -
  have "xs ! i \<in> set (filter (\<lambda>e. toolUseId e = Some t) xs)"
    using assms by simp
  then have "filter (\<lambda>e. toolUseId e = Some t) xs \<noteq> []"
    by (metis empty_iff empty_set)
  then show ?thesis
    by (cases "filter (\<lambda>e. toolUseId e = Some t) xs") (simp_all add: idCount_def)
qed

lemma timeline_appendMessages:
  "timeline (appendMessages fx now ms s)
     = timeline (foldl appendEntry s (chunk_timeline (collectDisplayChunks fx now ms)))"
  by (simp add: appendMessages_def Let_def)

lemma seen_appendEntry: "seen s \<subseteq> seen (appendEntry s e)"
  by (auto simp: appendEntry_def Let_def split: option.splits)

lemma collect_single_call:
  "chunk_timeline (collectDisplayChunks fx now [AssistantMessage [ToolCallPart name (Some t) st]])
     = [\<lparr>kind = KToolCall,
         content = formatToolCall (if name \<noteq> [] then name else ''unknown-tool''),
         toolUseId = Some t,
         toolName = Some (if name \<noteq> [] then name else ''unknown-tool''),
         durationMs = None\<rparr>]"
  by (simp add: collectDisplayChunks_def emptyCollector_def buildToolCallContent_def Let_def)

lemma append_single_call:
  assumes inv: "trackerInv fx s" and t: "t \<noteq> []"
  shows "idCount t (timeline (appendMessages fx now [AssistantMessage [ToolCallPart name (Some t) st]] s)) = 1
     \<and> ''tool:'' @ t \<in> seen (appendMessages fx now [AssistantMessage [ToolCallPart name (Some t) st]] s)
     \<and> (''tool:'' @ t \<in> seen s \<longrightarrow>
          length (timeline (appendMessages fx now [AssistantMessage [ToolCallPart name (Some t) st]] s))
            = length (timeline s))"
proof -
  let ?n = "if name \<noteq> [] then name else ''unknown-tool''"
  let ?e = "\<lparr>kind = KToolCall, content = formatToolCall ?n, toolUseId = Some t,
              toolName = Some ?n, durationMs = None\<rparr>"
  let ?s' = "appendMessages fx now [AssistantMessage [ToolCallPart name (Some t) st]] s"
  have tl: "timeline ?s' = timeline (appendEntry s ?e)"
    by (simp add: timeline_appendMessages collect_single_call)
  have sn: "seen ?s' = seen (appendEntry s ?e)"
    by (simp add: appendMessages_def collect_single_call Let_def)
  have wf: "wfEntry fx ?e"
    by (simp add: wfEntry_def formatToolCall_nonempty buildToolCallContent_def)
  have key: "getTimelineEntryKey ?e = ''tool:'' @ t"
    using t by (simp add: key_tool)
  have inv': "trackerInv fx (appendEntry s ?e)"
    using inv wf by (rule trackerInv_appendEntry)
  show ?thesis
  proof (cases "''tool:'' @ t \<in> seen s")
    case False
    then have none: "\<forall>x\<in>set (timeline s). toolUseId x \<noteq> Some t"
      using inv t by (auto simp: trackerInv_def)
    have "appendEntry s ?e = s\<lparr>seen := insert (getTimelineEntryKey ?e) (seen s),
                              timeline := timeline s @ [?e]\<rparr>"
      using False key by (intro appendEntry_new) (simp_all add: formatToolCall_nonempty)
    moreover have "idCount t (timeline s) = 0"
      using none by (simp add: idCount_zero)
    ultimately show ?thesis
      using False key tl sn by (simp add: idCount_append)
  next
    case True
    then obtain x where "x \<in> set (timeline s)" "toolUseId x = Some t"
      using inv t by (auto simp: trackerInv_def)
    then obtain k where k: "k < length (timeline s)" "toolUseId (timeline s ! k) = Some t"
      by (auto simp: in_set_conv_nth)
    from appendEntry_at [OF inv wf k t]
    have at: "timeline (appendEntry s ?e) ! k = ?e"
      "length (timeline (appendEntry s ?e)) = length (timeline s)"
      by auto
    have "1 \<le> idCount t (timeline (appendEntry s ?e))"
      using at k by (intro idCount_pos [of k]) auto
    moreover have "idCount t (timeline (appendEntry s ?e)) \<le> 1"
      using inv' t by (auto simp: trackerInv_def)
    moreover have "''tool:'' @ t \<in> seen (appendEntry s ?e)"
      using True seen_appendEntry [of s ?e] by auto
    ultimately show ?thesis
      using tl sn at by simp
  qed
qed

text \<open>
  C3 (as amended). After every sequence of tracker operations the timeline holds at
  most one entry for each non-empty tool-use id \<open>t\<close>; appending a tool-call message
  with id \<open>t\<close> gives exactly one entry with that id, and appending the same message
  again still gives exactly one and leaves the length of the timeline as it was: the
  entry is replaced where it stands.
\<close>

theorem one_entry_per_tool_use_id:
  assumes "t \<noteq> []"
    and "s1 = appendMessages fx now [AssistantMessage [ToolCallPart name (Some t) st]] (runOps fx ops)"
    and "s2 = appendMessages fx now' [AssistantMessage [ToolCallPart name (Some t) st]] s1"
  shows "idCount t (timeline (runOps fx ops)) \<le> 1
     \<and> idCount t (timeline s1) = 1
     \<and> idCount t (timeline s2) = 1
     \<and> length (timeline s2) = length (timeline s1)"
proof -
  have inv: "trackerInv fx (runOps fx ops)"
    by (rule trackerInv_runOps)
  have inv1: "trackerInv fx s1"
    unfolding assms(2) using inv by (rule trackerInv_appendMessages)
  have a: "idCount t (timeline (runOps fx ops)) \<le> 1"
    using inv assms(1) by (auto simp: trackerInv_def)
  from append_single_call [OF inv assms(1), of now name st]
  have b: "idCount t (timeline s1) = 1" "''tool:'' @ t \<in> seen s1"
    unfolding assms(2) by auto
  from append_single_call [OF inv1 assms(1), of now' name st] b(2)
  have c: "idCount t (timeline s2) = 1" "length (timeline s2) = length (timeline s1)"
    unfolding assms(3) by auto
  from a b c show ?thesis by simp
qed

text \<open>
  C10. In a state that the tracker reaches, let the entry at position \<open>i\<close> have the
  tool-use id \<open>t\<close> and a recorded duration \<open>d\<close>; its content then carries the
  duration suffix. After \<open>appendMessages\<close> with a batch that has a tool-call part with
  id \<open>t\<close> and no tool-result part with id \<open>t\<close>, the entry at position \<open>i\<close> is a
  tool-call entry with id \<open>t\<close>, no duration, and the bare call label as content, and
  it is the only entry with id \<open>t\<close>: the recorded time is gone.
\<close>

theorem repeated_call_discards_duration:
  assumes "i < length (timeline (runOps fx ops))"
    and "toolUseId (timeline (runOps fx ops) ! i) = Some t"
    and "durationMs (timeline (runOps fx ops) ! i) = Some d"
    and "Some t \<in> set (batchCallIds ms)"
    and "Some t \<notin> set (batchResultIds ms)"
    and "s' = appendMessages fx now ms (runOps fx ops)"
  shows "(\<exists>name. content (timeline (runOps fx ops) ! i)
                   = formatToolCall name @ '' '' @ durationTag fx d)
     \<and> i < length (timeline s')
     \<and> kind (timeline s' ! i) = KToolCall
     \<and> toolUseId (timeline s' ! i) = Some t
     \<and> durationMs (timeline s' ! i) = None
     \<and> (\<exists>name. toolName (timeline s' ! i) = Some name
                 \<and> content (timeline s' ! i) = formatToolCall name)
     \<and> idCount t (timeline s') = 1"
proof -
  let ?s = "runOps fx ops"
  let ?chunk = "chunk_timeline (collectDisplayChunks fx now ms)"
  have inv: "trackerInv fx ?s"
    by (rule trackerInv_runOps)
  have "timeline ?s ! i \<in> set (timeline ?s)" using assms(1) by simp
  then have wf0: "wfEntry fx (timeline ?s ! i)"
    using inv by (auto simp: trackerInv_def)
  then have t: "t \<noteq> []"
    using assms(2,3) by (auto simp: wfEntry_def)
  have "kind (timeline ?s ! i) = KToolCall"
    using wf0 assms(2) by (auto simp: wfEntry_def)
  then have old: "\<exists>name. content (timeline ?s ! i) = formatToolCall name @ '' '' @ durationTag fx d"
    using wf0 assms(3) by (auto simp: wfEntry_def buildToolCallContent_def)
  have fresh: "\<forall>e\<in>set ?chunk. toolUseId e = Some t \<longrightarrow> isFresh e"
    using chunks_fresh [OF assms(5), of fx now] by (simp add: freshFor_def)
  have call: "\<exists>e\<in>set ?chunk. toolUseId e = Some t"
    using assms(4) by (rule chunks_has_call)
  from foldl_appendEntry_at [OF inv chunks_wf assms(1,2) t fresh] call
  have at: "i < length (timeline (foldl appendEntry ?s ?chunk))"
    "toolUseId (timeline (foldl appendEntry ?s ?chunk) ! i) = Some t"
    "isFresh (timeline (foldl appendEntry ?s ?chunk) ! i)"
    by auto
  have tl: "timeline s' = timeline (foldl appendEntry ?s ?chunk)"
    unfolding assms(6) by (rule timeline_appendMessages)
  have inv': "trackerInv fx s'"
    unfolding assms(6) using inv by (rule trackerInv_appendMessages)
  have "1 \<le> idCount t (timeline s')"
    using at(1,2) unfolding tl by (rule idCount_pos)
  moreover have "idCount t (timeline s') \<le> 1"
    using inv' t by (auto simp: trackerInv_def)
  ultimately have one: "idCount t (timeline s') = 1" by simp
  from at(3) have "kind (timeline s' ! i) = KToolCall" "durationMs (timeline s' ! i) = None"
    "\<exists>name. toolName (timeline s' ! i) = Some name \<and> content (timeline s' ! i) = formatToolCall name"
    unfolding tl by (auto simp: isFresh_def split: option.splits)
  with old at(1,2) one show ?thesis
    unfolding tl by simp
qed

lemma tool_messages_alone:
  "appendMessages fx now [ToolMessage uid parts] s = s"
proof -
  have "foldl (collectResult fx now) emptyCollector parts = emptyCollector"
    by (induction parts) (simp_all add: collectResult_def emptyCollector_def split: option.splits)
  then show ?thesis
    by (simp add: appendMessages_def collectDisplayChunks_def Let_def)
      (simp add: emptyCollector_def)
qed

lemma exCalled_eq:
  "exCalled = \<lparr>status = Thinking, timeline = [exReadEntry None], seen = {''tool:t1''},
               draftAnswer = []\<rparr>"
  by (simp add: exCalled_def runOps_def exCallMessage_def appendMessages_def collect_single_call
      appendEntry_def getTimelineEntryKey_def formatToolCall_nonempty newTracker_def
      exReadEntry_def buildToolCallContent_def Let_def)
    (simp add: collectDisplayChunks_def emptyCollector_def Let_def)

lemma exTimed_chunks:
  "collectDisplayChunks exFx 1000 [exCallMessage, exResultMessage]
     = \<lparr>chunk_timeline = [exReadEntry (Some 1500)], finalText = []\<rparr>"
  by (simp add: collectDisplayChunks_def emptyCollector_def exCallMessage_def exResultMessage_def
      collectResult_def resolveDurationMs_def exReadEntry_def Let_def)

lemma exTimed_eq:
  "exTimed = \<lparr>status = Thinking, timeline = [exReadEntry (Some 1500)], seen = {''tool:t1''},
              draftAnswer = []\<rparr>"
  by (simp add: exTimed_def runOps_def appendMessages_def exTimed_chunks appendEntry_def
      getTimelineEntryKey_def exReadEntry_def buildToolCallContent_nonempty newTracker_def Let_def)

text \<open>
  C4 (the code at the failing input). After the tool call \<open>read\<close> with id \<open>t1\<close> is
  appended, appending the matching tool result in a call of its own changes nothing:
  the entry keeps the bare call label, with no duration. The same holds when the result
  arrives as a verbose \<open>tool\<close> event of phase \<open>end\<close>, which reports a duration. Only
  when call and result come in one batch does the entry get its duration suffix.
\<close>

theorem late_tool_result_ignored:
  "timeline exCalled = [exReadEntry None]
   \<and> appendMessages exFx 2500 [exResultMessage] exCalled = exCalled
   \<and> timeline (fst (applyVerboseEvent exFx 2500 (exCalled, []) exToolEnd)) = [exReadEntry None]
   \<and> content (exReadEntry None) = formatToolCall ''read''
   \<and> timeline exTimed = [exReadEntry (Some 1500)]
   \<and> content (exReadEntry (Some 1500)) = formatToolCall ''read'' @ '' '' @ durationTag exFx 1500"
proof -
  have a: "timeline exCalled = [exReadEntry None]"
    by (simp add: exCalled_eq)
  have b: "appendMessages exFx 2500 [exResultMessage] exCalled = exCalled"
    unfolding exResultMessage_def by (rule tool_messages_alone)
  have "fst (applyVerboseEvent exFx 2500 (exCalled, []) exToolEnd)
      = setStatus WaitingToolResult
          (appendMessages exFx 2500
             [ToolMessage (Some ''t1'')
                [\<lparr>tr_toolUseId = Some ''t1'',
                  tr_text = Some (toolResultText (eventData exToolEnd) False),
                  tr_completedAt = Some 2500, tr_durationMs = Some 1500\<rparr>]]
             exCalled)"
    by (simp add: applyVerboseEvent_def eventStream_def eventData_def exToolEnd_def emptyData_def
        Let_def)
  then have c: "timeline (fst (applyVerboseEvent exFx 2500 (exCalled, []) exToolEnd)) = [exReadEntry None]"
    by (simp add: tool_messages_alone setStatus_def a)
  have d: "content (exReadEntry None) = formatToolCall ''read''"
    "content (exReadEntry (Some 1500)) = formatToolCall ''read'' @ '' '' @ durationTag exFx 1500"
    by (simp_all add: exReadEntry_def buildToolCallContent_def)
  have e: "timeline exTimed = [exReadEntry (Some 1500)]"
    by (simp add: exTimed_eq)
  from a b c d e show ?thesis by simp
qed

text \<open>
  The claim as stated fails for the empty string as id, which the code takes for no
  id: two tool calls with the id \<open>""\<close> and different tool names give two timeline
  entries with that same id.
\<close>

theorem one_entry_per_tool_use_id_counterexample:
  "idCount [] (timeline (runOps exFx exEmptyIdOps)) = 2"
  by (simp add: exEmptyIdOps_def runOps_def appendMessages_def collectDisplayChunks_def
      emptyCollector_def buildToolCallContent_def appendEntry_def getTimelineEntryKey_def
      formatToolCall_def newTracker_def idCount_def Let_def)

theorem one_entry_per_tool_use_id_witness:
  "''t1'' \<noteq> []
   \<and> idCount ''t1'' (timeline (runOps exFx [])) \<le> 1
   \<and> idCount ''t1'' (timeline (appendMessages exFx 1000 [exCallMessage] (runOps exFx []))) = 1
   \<and> idCount ''t1'' (timeline (appendMessages exFx 2000 [exCallMessage]
                                (appendMessages exFx 1000 [exCallMessage] (runOps exFx [])))) = 1
   \<and> length (timeline (appendMessages exFx 2000 [exCallMessage]
                         (appendMessages exFx 1000 [exCallMessage] (runOps exFx []))))
       = length (timeline (appendMessages exFx 1000 [exCallMessage] (runOps exFx [])))"
proof -
  have n: "''t1'' \<noteq> []" by simp
  from one_entry_per_tool_use_id
    [where t = "''t1''" and fx = exFx and now = 1000 and now' = 2000 and name = "''read''"
       and st = "Some 1000" and ops = "[]", OF n refl refl] n
  show ?thesis by (simp add: exCallMessage_def)
qed

theorem repeated_call_discards_duration_witness:
  "0 < length (timeline exTimed)
   \<and> toolUseId (timeline exTimed ! 0) = Some ''t1''
   \<and> durationMs (timeline exTimed ! 0) = Some 1500
   \<and> Some ''t1'' \<in> set (batchCallIds [exCallMessage])
   \<and> Some ''t1'' \<notin> set (batchResultIds [exCallMessage])
   \<and> durationMs (timeline (appendMessages exFx 3000 [exCallMessage] exTimed) ! 0) = None
   \<and> (\<exists>name. content (timeline (appendMessages exFx 3000 [exCallMessage] exTimed) ! 0)
                 = formatToolCall name)
   \<and> idCount ''t1'' (timeline (appendMessages exFx 3000 [exCallMessage] exTimed)) = 1"
proof -
  have a: "0 < length (timeline (runOps exFx [AppendMessages 1000 [exCallMessage, exResultMessage]]))"
    "toolUseId (timeline (runOps exFx [AppendMessages 1000 [exCallMessage, exResultMessage]]) ! 0) = Some ''t1''"
    "durationMs (timeline (runOps exFx [AppendMessages 1000 [exCallMessage, exResultMessage]]) ! 0) = Some 1500"
    using exTimed_eq by (simp_all add: exTimed_def exReadEntry_def)
  have b: "Some ''t1'' \<in> set (batchCallIds [exCallMessage])"
    "Some ''t1'' \<notin> set (batchResultIds [exCallMessage])"
    by (simp_all add: batchCallIds_def batchResultIds_def exCallMessage_def)
  from repeated_call_discards_duration [where now = 3000, OF a b refl] a b
  show ?thesis by (auto simp: exTimed_def)
qed

end
